theory Spec2Isabelle
  imports Main "HOL-Library.Multiset" "HOL-Library.Char_ord" "HOL-Library.List_Lexorder"
begin

section \<open>Values shared by the scrapers and the agent\<close>

text \<open>
  Exceptions of the Python code are values; a function that can raise returns
  \<open>exn + 'a\<close> with \<open>Inl\<close> for the exception.
\<close>

datatype exn = KeyError | ValueError | TypeError | AttributeError | OverflowError | ScraperError

text \<open>
  A numeric field of a flight is a Python number or \<open>float('inf')\<close>. The numbers that
  occur are integers and floats with an integral value; Python compares them by value, so
  they are kept as \<open>Fin\<close> of their value.
\<close>

datatype number = Fin int | PInf

instantiation number :: linorder
begin

fun less_eq_number :: "number \<Rightarrow> number \<Rightarrow> bool" where
  "less_eq_number (Fin a) (Fin b) = (a \<le> b)"
| "less_eq_number (Fin a) PInf = True"
| "less_eq_number PInf (Fin b) = False"
| "less_eq_number PInf PInf = True"

definition less_number :: "number \<Rightarrow> number \<Rightarrow> bool" where
  "less_number x y = (x \<le> y \<and> \<not> y \<le> (x::number))"

instance
proof
  fix x y z :: number
  show "(x < y) = (x \<le> y \<and> \<not> y \<le> x)"
    by (simp add: less_number_def)
  show "x \<le> x"
    by (cases x) simp_all
  show "x \<le> y \<Longrightarrow> y \<le> z \<Longrightarrow> x \<le> z"
    by (cases x; cases y; cases z) simp_all
  show "x \<le> y \<Longrightarrow> y \<le> x \<Longrightarrow> x = y"
    by (cases x; cases y) simp_all
  show "x \<le> y \<or> y \<le> x"
    by (cases x; cases y) auto
qed

end

section \<open>Field parsers (flight\_scrapers.py)\<close>

subsection \<open>Strings\<close>

text \<open>
  A \<open>char\<close> is the code point of a character below 256. In that range \<open>\d\<close> matches
  the ten ASCII digits only, and \<open>str.strip\<close> removes the code points for which
  \<open>str.isspace\<close> holds: 9 to 13, 28 to 32, 133 and 160.
\<close>

definition is_digit :: "char \<Rightarrow> bool" where
  "is_digit c = (48 \<le> (of_char c :: nat) \<and> (of_char c :: nat) \<le> 57)"

definition is_space :: "char \<Rightarrow> bool" where
  "is_space c = (let n = (of_char c :: nat) in
     (9 \<le> n \<and> n \<le> 13) \<or> (28 \<le> n \<and> n \<le> 32) \<or> n = 133 \<or> n = 160)"

definition strip :: "string \<Rightarrow> string" where
  "strip s = rev (dropWhile is_space (rev (dropWhile is_space s)))"

definition replace_comma :: "string \<Rightarrow> string" where
  \<comment> \<open>\<open>text.replace(',', '')\<close>\<close>
  "replace_comma s = filter (\<lambda>c. c \<noteq> CHR '','') s"

definition digit_val :: "char \<Rightarrow> nat" where
  "digit_val c = of_char c - 48"

definition nat_of_digits :: "string \<Rightarrow> nat" where
  "nat_of_digits ds = foldl (\<lambda>a c. 10 * a + digit_val c) 0 ds"

subsection \<open>Regular expressions\<close>

text \<open>
  \<open>re.findall(r'[\d,]+', s)\<close>: the maximal runs of characters of the class, from left
  to right. \<open>findall_class\<close> takes the class as a predicate.
\<close>

function findall_class :: "(char \<Rightarrow> bool) \<Rightarrow> string \<Rightarrow> string list" where
  "findall_class P s =
     (case dropWhile (\<lambda>c. \<not> P c) s of
        [] \<Rightarrow> []
      | c # cs \<Rightarrow> takeWhile P (c # cs) # findall_class P (dropWhile P (c # cs)))"
  by pat_completeness auto
termination
proof (relation "measure (\<lambda>(P, s). length s)")
  show "wf (measure (\<lambda>(P, s). length s))" by simp
next
  fix P :: "char \<Rightarrow> bool" and s :: string and c cs
  assume eq: "dropWhile (\<lambda>c. \<not> P c) s = c # cs"
  have "P c"
    using hd_dropWhile [of "\<lambda>c. \<not> P c" s] eq by simp
  then have "length (dropWhile P (c # cs)) \<le> length cs"
    by (simp add: length_dropWhile_le)
  moreover have "length (c # cs) \<le> length s"
    using length_dropWhile_le [of "\<lambda>c. \<not> P c" s] eq by simp
  ultimately show "((P, dropWhile P (c # cs)), (P, s)) \<in> measure (\<lambda>(P, s). length s)"
    by simp
qed

declare findall_class.simps [simp del]

text \<open>
  \<open>re.findall(r'(\d+)h', s)\<close>: the captured digit groups of the successive matches. The
  letter is not a digit, so a match at a position takes the whole digit run that starts
  there and needs the letter right after it; a run followed by anything else matches at
  none of its positions. The scan keeps the digit run read so far in \<open>acc\<close>.
\<close>

fun findall_digits_then :: "char \<Rightarrow> string \<Rightarrow> string \<Rightarrow> string list" where
  "findall_digits_then l acc [] = []"
| "findall_digits_then l acc (c # cs) =
     (if is_digit c then findall_digits_then l (acc @ [c]) cs
      else if c = l \<and> acc \<noteq> [] then acc # findall_digits_then l [] cs
      else findall_digits_then l [] cs)"

subsection \<open>Conversions\<close>

text \<open>
  \<open>int.bit_length\<close>, and \<open>float\<close> of a decimal numeral: the nearest double, ties to
  even, which is an integer again from $2^{53}$ on, and \<open>inf\<close> from $2^{1024}$ on.
\<close>

function bit_length :: "nat \<Rightarrow> nat" where
  "bit_length n = (if n = 0 then 0 else Suc (bit_length (n div 2)))"
  by pat_completeness auto
termination
  by (relation "measure (\<lambda>n. n)") auto

declare bit_length.simps [simp del]

definition float_of_nat :: "nat \<Rightarrow> number" where
  "float_of_nat n =
     (if n < 2 ^ 53 then Fin (int n)
      else let e = bit_length n - 53;
               q = n div 2 ^ e;
               r = n mod 2 ^ e;
               h = 2 ^ (e - 1);
               q' = (if h < r \<or> (r = h \<and> odd q) then q + 1 else q);
               v = q' * 2 ^ e
           in if 2 ^ 1024 \<le> v then PInf else Fin (int v))"

definition py_float :: "string \<Rightarrow> exn + number" where
  \<comment> \<open>\<open>float(s)\<close> on a string of the class \<open>[\d,]+\<close>: a comma is a \<open>ValueError\<close>\<close>
  "py_float s =
     (if s \<noteq> [] \<and> list_all is_digit s then Inr (float_of_nat (nat_of_digits s))
      else Inl ValueError)"

text \<open>
  \<open>int(s)\<close> on a captured digit group. CPython refuses a decimal string of more digits
  than \<open>sys.get_int_max_str_digits()\<close> with a \<open>ValueError\<close>; the limit is 4300 unless
  the interpreter is configured otherwise, and 0 switches it off.
\<close>

definition default_max_str_digits :: nat where
  "default_max_str_digits = 4300"

definition py_int :: "nat \<Rightarrow> string \<Rightarrow> exn + int" where
  "py_int lim s =
     (if 0 < lim \<and> lim < length s then Inl ValueError
      else Inr (int (nat_of_digits s)))"

subsection \<open>The parsers\<close>

definition parse_price :: "string \<Rightarrow> exn + (string \<times> number)" where
  "parse_price price_text =
     (if price_text = [] then Inr (''N/A'', PInf)
      else let numeric_price = findall_class (\<lambda>c. is_digit c \<or> c = CHR '','')
                                 (replace_comma price_text)
           in case numeric_price of
                [] \<Rightarrow> Inr (strip price_text, PInf)
              | d # _ \<Rightarrow>
                  (case py_float d of
                     Inr v \<Rightarrow> Inr (strip price_text, v)
                   | Inl _ \<Rightarrow> Inr (strip price_text, PInf)))"

definition parse_duration :: "nat \<Rightarrow> string \<Rightarrow> exn + (string \<times> number)" where
  "parse_duration lim duration_text =
     (if duration_text = [] then Inr (''N/A'', PInf)
      else let hours = findall_digits_then CHR ''h'' [] duration_text;
               minutes = findall_digits_then CHR ''m'' [] duration_text
           in case (case hours of [] \<Rightarrow> Inr 0
                    | h # _ \<Rightarrow> map_sum id (\<lambda>n. n * 60) (py_int lim h)) of
                Inl e \<Rightarrow> Inl e
              | Inr t1 \<Rightarrow>
                  (case (case minutes of [] \<Rightarrow> Inr t1
                         | m # _ \<Rightarrow> map_sum id (\<lambda>n. t1 + n) (py_int lim m)) of
                     Inl e \<Rightarrow> Inl e
                   | Inr total_minutes \<Rightarrow>
                       Inr (strip duration_text,
                            if 0 < total_minutes then Fin total_minutes else PInf)))"

section \<open>Flight records and configuration\<close>

text \<open>
  A flight is a dictionary with string keys; a key that is not there is \<open>None\<close>. The
  Expedia and Booking records, for one, have no airports.
\<close>

record flight =
  airline :: "string option"
  departure_time :: "string option"
  arrival_time :: "string option"
  duration :: "string option"
  duration_minutes :: "number option"
  price :: "string option"
  price_numeric :: "number option"
  stops :: "string option"
  departure_airport :: "string option"
  arrival_airport :: "string option"
  website :: "string option"

text \<open>
  The configuration is the JSON document of \<open>config.json\<close>. A value of it is \<open>null\<close>,
  which \<open>json.load\<close> turns into Python's \<open>None\<close>, or a value of the type that the code
  reads the key at: an object for a section, a string, an integer, a list of websites. A
  key of an object is there with its value (\<open>Some\<close>) or is not there (\<open>None\<close>), and a
  key whose value is \<open>null\<close> is there. Of \<open>browser_settings\<close> only the presence is read
  by the code below.
\<close>

datatype 'a nullable = Null | Val 'a

record flight_search_cfg =
  source :: "string nullable option"
  destination :: "string nullable option"
  travel_date :: "string nullable option"
  return_date :: "string nullable option"
  passengers :: "int nullable option"
  flight_class :: "string nullable option"

record websites_cfg =
  primary :: "string nullable option"
  fallback :: "string nullable list nullable option"

record search_settings_cfg =
  max_results :: "int nullable option"
  sort_by :: "string nullable option"
  timeout :: "int nullable option"
  retry_attempts :: "int nullable option"

record config =
  flight_search :: "flight_search_cfg nullable option"
  websites :: "websites_cfg nullable option"
  search_settings :: "search_settings_cfg nullable option"
  browser_settings :: "unit nullable option"

text \<open>
  The operations of Python on these values: \<open>d[key]\<close> raises \<open>KeyError\<close> for a key that
  is not there; \<open>None[key]\<close> and \<open>key in None\<close> raise \<open>TypeError\<close>; \<open>None.get\<close> raises
  \<open>AttributeError\<close>; \<open>d.get(key)\<close> is \<open>None\<close> for a key that is not there, and
  \<open>d.get(key, default)\<close> is the default then.
\<close>

definition subscript :: "'a option \<Rightarrow> exn + 'a" where
  "subscript v = (case v of None \<Rightarrow> Inl KeyError | Some x \<Rightarrow> Inr x)"

definition container :: "'a nullable \<Rightarrow> exn + 'a" where
  \<comment> \<open>the object on which \<open>[key]\<close> or \<open>key in\<close> is evaluated\<close>
  "container v = (case v of Null \<Rightarrow> Inl TypeError | Val d \<Rightarrow> Inr d)"

definition attribute_get :: "'a nullable \<Rightarrow> exn + 'a" where
  \<comment> \<open>the object whose method \<open>get\<close> is looked up\<close>
  "attribute_get v = (case v of Null \<Rightarrow> Inl AttributeError | Val d \<Rightarrow> Inr d)"

definition dict_get :: "'a nullable option \<Rightarrow> 'a nullable" where
  "dict_get v = (case v of None \<Rightarrow> Null | Some x \<Rightarrow> x)"

definition dict_get_default :: "'a nullable option \<Rightarrow> 'a \<Rightarrow> 'a nullable" where
  "dict_get_default v d = (case v of None \<Rightarrow> Val d | Some x \<Rightarrow> x)"

section \<open>Configuration validation (utils.py)\<close>

text \<open>
  \<open>strptime\<close> stands for \<open>datetime.strptime(s, '%Y-%m-%d')\<close> of the standard library:
  it says whether the call returns (\<open>True\<close>) or raises \<open>ValueError\<close>.
\<close>

definition required_flight_key :: "string nullable option \<Rightarrow> exn + string" where
  \<comment> \<open>\<open>if key not in flight_search or not flight_search[key]: raise ValueError\<close>\<close>
  "required_flight_key v =
     (case v of
        None \<Rightarrow> Inl ValueError
      | Some Null \<Rightarrow> Inl ValueError
      | Some (Val s) \<Rightarrow> if s = [] then Inl ValueError else Inr s)"

definition supported_websites :: "string list" where
  "supported_websites = [''kayak'', ''expedia'', ''booking'']"

definition validate_config :: "(string \<Rightarrow> bool) \<Rightarrow> config \<Rightarrow> exn + unit" where
  "validate_config strptime cfg =
     (case (flight_search cfg, websites cfg, search_settings cfg, browser_settings cfg) of
        (Some fsv, Some wsv, Some _, Some _) \<Rightarrow>
          (case container fsv of
             Inl e \<Rightarrow> Inl e
           | Inr fs \<Rightarrow>
          (case required_flight_key (source fs) of
             Inl e \<Rightarrow> Inl e
           | Inr _ \<Rightarrow>
          (case required_flight_key (destination fs) of
             Inl e \<Rightarrow> Inl e
           | Inr _ \<Rightarrow>
          (case required_flight_key (travel_date fs) of
             Inl e \<Rightarrow> Inl e
           | Inr d \<Rightarrow>
               if \<not> strptime d then Inl ValueError
               else if (case dict_get (return_date fs) of Null \<Rightarrow> False
                        | Val r \<Rightarrow> r \<noteq> [] \<and> \<not> strptime r) then Inl ValueError
               else (case container wsv of
                       Inl e \<Rightarrow> Inl e
                     | Inr ws \<Rightarrow>
                         (case primary ws of
                            None \<Rightarrow> Inl ValueError
                          | Some p \<Rightarrow>
                              if p \<notin> set (map Val supported_websites) then Inl ValueError
                              else Inr ()))))))
      | _ \<Rightarrow> Inl ValueError)"

section \<open>The agent (flight\_scanner\_agent.py)\<close>

text \<open>
  The arguments of \<open>scraper.search_flights\<close>, read from the configuration before the
  call: \<open>return_date\<close> with \<open>.get\<close>, the others with a subscript, which raises
  \<open>KeyError\<close> on a missing key and returns \<open>None\<close> for a key whose value is \<open>null\<close>.
\<close>

record query =
  q_source :: "string nullable"
  q_destination :: "string nullable"
  q_travel_date :: "string nullable"
  q_return_date :: "string nullable"
  q_passengers :: "int nullable"
  q_flight_class :: "string nullable"

definition search_args :: "config \<Rightarrow> exn + query" where
  "search_args cfg =
     (case subscript (flight_search cfg) of Inl e \<Rightarrow> Inl e | Inr fsv \<Rightarrow>
      case container fsv of Inl e \<Rightarrow> Inl e | Inr fs \<Rightarrow>
      case subscript (source fs) of Inl e \<Rightarrow> Inl e | Inr s \<Rightarrow>
      case subscript (destination fs) of Inl e \<Rightarrow> Inl e | Inr d \<Rightarrow>
      case subscript (travel_date fs) of Inl e \<Rightarrow> Inl e | Inr t \<Rightarrow>
      case subscript (passengers fs) of Inl e \<Rightarrow> Inl e | Inr p \<Rightarrow>
      case subscript (flight_class fs) of Inl e \<Rightarrow> Inl e | Inr c \<Rightarrow>
        Inr \<lparr>q_source = s, q_destination = d, q_travel_date = t,
             q_return_date = dict_get (return_date fs), q_passengers = p, q_flight_class = c\<rparr>)"

definition websites_to_try :: "config \<Rightarrow> exn + string nullable list" where
  \<comment> \<open>\<open>[config['websites']['primary']] + config['websites']['fallback']\<close>\<close>
  "websites_to_try cfg =
     (case subscript (websites cfg) of Inl e \<Rightarrow> Inl e | Inr wsv \<Rightarrow>
      case container wsv of Inl e \<Rightarrow> Inl e | Inr ws \<Rightarrow>
      case subscript (primary ws) of Inl e \<Rightarrow> Inl e | Inr p \<Rightarrow>
      case subscript (fallback ws) of Inl e \<Rightarrow> Inl e | Inr fbv \<Rightarrow>
      case fbv of Null \<Rightarrow> Inl TypeError | Val fb \<Rightarrow> Inr (p # fb))"

text \<open>
  The loop over the websites. \<open>scrape w q st\<close> stands for the body of the \<open>try\<close> from
  the factory call to the return of the scraper's \<open>search_flights\<close> on website \<open>w\<close>:
  it returns the flights or the exception raised, and the new state of the world (browser,
  network, random generator). The loop state is that state and the list of the websites
  whose scraper has been called so far. An exception raised while the arguments are read
  leaves the \<open>try\<close> before the scraper is called.
\<close>

fun try_websites ::
  "(string nullable \<Rightarrow> query \<Rightarrow> 'st \<Rightarrow> (exn + flight list) \<times> 'st) \<Rightarrow> config \<Rightarrow>
   string nullable list \<Rightarrow> 'st \<times> string nullable list \<Rightarrow>
   flight list \<times> 'st \<times> string nullable list" where
  "try_websites scrape cfg [] (st, called) = ([], st, called)"
| "try_websites scrape cfg (w # ws) (st, called) =
     (case search_args cfg of
        Inl e \<Rightarrow> try_websites scrape cfg ws (st, called)
      | Inr q \<Rightarrow>
          (case scrape w q st of
             (Inl e, st') \<Rightarrow> try_websites scrape cfg ws (st', called @ [w])
           | (Inr flights, st') \<Rightarrow>
               if flights \<noteq> [] then (flights, st', called @ [w])
               else try_websites scrape cfg ws (st', called @ [w])))"

definition price_key :: "flight \<Rightarrow> number" where
  \<comment> \<open>\<open>x.get('price_numeric', float('inf'))\<close>\<close>
  "price_key x = (case price_numeric x of None \<Rightarrow> PInf | Some n \<Rightarrow> n)"

definition duration_key :: "flight \<Rightarrow> number" where
  "duration_key x = (case duration_minutes x of None \<Rightarrow> PInf | Some n \<Rightarrow> n)"

definition departure_key :: "flight \<Rightarrow> string" where
  "departure_key x = (case departure_time x of None \<Rightarrow> [] | Some t \<Rightarrow> t)"

text \<open>
  \<open>list.sort(key=...)\<close> is a stable sort; \<^const>\<open>sort_key\<close> is the stable insertion
  sort of the list library. Strings are compared code point by code point. The chain of
  \<open>if\<close> and \<open>elif\<close> compares the configured value, which may be \<open>None\<close>, with the three
  names and has no \<open>else\<close>.
\<close>

definition sort_flights :: "string nullable \<Rightarrow> flight list \<Rightarrow> flight list" where
  "sort_flights k all_flights =
     (if k = Val ''price'' then sort_key price_key all_flights
      else if k = Val ''duration'' then sort_key duration_key all_flights
      else if k = Val ''departure_time'' then sort_key departure_key all_flights
      else all_flights)"

definition slice_to :: "'a list \<Rightarrow> int nullable \<Rightarrow> 'a list" where
  \<comment> \<open>\<open>xs[:m]\<close>: a negative \<open>m\<close> counts from the end, \<open>xs[:None]\<close> is the whole list\<close>
  "slice_to xs mv =
     (case mv of
        Null \<Rightarrow> xs
      | Val m \<Rightarrow> if 0 \<le> m then take (nat m) xs else take (nat (int (length xs) + m)) xs)"

definition postprocess :: "config \<Rightarrow> flight list \<Rightarrow> exn + flight list" where
  "postprocess cfg all_flights =
     (if all_flights = [] then Inr []
      else case subscript (search_settings cfg) of Inl e \<Rightarrow> Inl e | Inr ssv \<Rightarrow>
           case attribute_get ssv of Inl e \<Rightarrow> Inl e | Inr ss \<Rightarrow>
        let k = dict_get_default (sort_by ss) ''price'';
            m = dict_get_default (max_results ss) 10
        in Inr (slice_to (sort_flights k all_flights) m))"

definition search_flights ::
  "(string nullable \<Rightarrow> query \<Rightarrow> 'st \<Rightarrow> (exn + flight list) \<times> 'st) \<Rightarrow> config \<Rightarrow> 'st \<Rightarrow>
   (exn + flight list) \<times> 'st \<times> string nullable list" where
  "search_flights scrape cfg st =
     (case subscript (flight_search cfg) of Inl e \<Rightarrow> (Inl e, st, []) | Inr fsv \<Rightarrow>
      case container fsv of Inl e \<Rightarrow> (Inl e, st, []) | Inr fs \<Rightarrow>
      case subscript (source fs) of Inl e \<Rightarrow> (Inl e, st, []) | Inr _ \<Rightarrow>
      case subscript (destination fs) of Inl e \<Rightarrow> (Inl e, st, []) | Inr _ \<Rightarrow>
      case subscript (travel_date fs) of Inl e \<Rightarrow> (Inl e, st, []) | Inr _ \<Rightarrow>
      case websites_to_try cfg of Inl e \<Rightarrow> (Inl e, st, []) | Inr ws \<Rightarrow>
        (case try_websites scrape cfg ws (st, []) of
           (all_flights, st', called) \<Rightarrow> (postprocess cfg all_flights, st', called)))"


section \<open>The demo scraper (demo\_scraper.py)\<close>

subsection \<open>Library functions\<close>

text \<open>
  The state of the module \<open>random\<close> is the stream of the raw draws still to come. Every
  call takes one: \<open>randbelow n\<close> reduces it below \<open>n\<close>, \<open>randint a b\<close> is
  \<open>a + randbelow (b - a + 1)\<close>, \<open>choice\<close> indexes the list with \<open>randbelow\<close> of its
  length. \<open>random.choices\<close> with the weights 0.4, 0.5 and 0.1 draws a float below 1 and
  compares it with the cumulated weights 0.4 and 0.9; the float is kept in tenths.
\<close>

type_synonym rng = "nat \<Rightarrow> nat"

definition randbelow :: "nat \<Rightarrow> rng \<Rightarrow> nat \<times> rng" where
  "randbelow n g = (g 0 mod n, \<lambda>i. g (Suc i))"

definition randint :: "int \<Rightarrow> int \<Rightarrow> rng \<Rightarrow> int \<times> rng" where
  "randint a b g = (case randbelow (nat (b - a + 1)) g of (k, g') \<Rightarrow> (a + int k, g'))"

definition choice :: "'a list \<Rightarrow> rng \<Rightarrow> 'a \<times> rng" where
  "choice xs g = (case randbelow (length xs) g of (k, g') \<Rightarrow> (xs ! k, g'))"

definition choices_stops :: "rng \<Rightarrow> string \<times> rng" where
  "choices_stops g =
     (case randbelow 10 g of
        (k, g') \<Rightarrow> (if k < 4 then ''Nonstop'' else if k < 9 then ''1 stop'' else ''2 stops'', g'))"

text \<open>\<open>str.upper\<close>, for airport names in ASCII.\<close>

definition upper_char :: "char \<Rightarrow> char" where
  "upper_char c =
     (if 97 \<le> (of_char c :: nat) \<and> (of_char c :: nat) \<le> 122
      then char_of ((of_char c :: nat) - 32) else c)"

definition upper :: "string \<Rightarrow> string" where
  "upper s = map upper_char s"

text \<open>\<open>str\<close> of an integer, and the format \<open>02d\<close>.\<close>

function str_nat :: "nat \<Rightarrow> string" where
  "str_nat n =
     (if n < 10 then [char_of (48 + n)]
      else str_nat (n div 10) @ [char_of (48 + n mod 10)])"
  by pat_completeness auto
termination
  by (relation "measure (\<lambda>n. n)") auto

declare str_nat.simps [simp del]

definition str_int :: "int \<Rightarrow> string" where
  "str_int i = (if i < 0 then CHR ''-'' # str_nat (nat (- i)) else str_nat (nat i))"

definition pad2 :: "int \<Rightarrow> string" where
  "pad2 i = (if 0 \<le> i \<and> i < 10 then CHR ''0'' # str_int i else str_int i)"

subsection \<open>The tables of the scraper\<close>

definition airlines :: "(string \<times> int \<times> int) list" where
  "airlines =
     [(''American Airlines'', 200, 800),
      (''Delta Air Lines'', 220, 850),
      (''United Airlines'', 210, 820),
      (''Southwest Airlines'', 150, 600),
      (''JetBlue Airways'', 180, 700),
      (''Alaska Airlines'', 190, 750),
      (''Spirit Airlines'', 100, 400),
      (''Frontier Airlines'', 120, 450)]"

definition flight_durations :: "((string \<times> string) \<times> int \<times> int) list" where
  "flight_durations =
     [((''NYC'', ''LAX''), 330, 390),
      ((''NYC'', ''CHI''), 150, 180),
      ((''LAX'', ''CHI''), 240, 280),
      ((''NYC'', ''MIA''), 180, 220),
      ((''LAX'', ''SEA''), 150, 180)]"

definition duration_range :: "string \<Rightarrow> string \<Rightarrow> int \<times> int" where
  "duration_range src dst =
     (let route_key = (upper src, upper dst);
          reverse_route_key = (upper dst, upper src)
      in case map_of flight_durations route_key of
           Some r \<Rightarrow> r
         | None \<Rightarrow>
             (case map_of flight_durations reverse_route_key of
                Some r \<Rightarrow> r
              | None \<Rightarrow> (120, 480)))"

subsection \<open>Generating flights\<close>

text \<open>
  \<open>strptime_hm s\<close> stands for \<open>datetime.strptime(s, "%Y-%m-%d %H:%M")\<close> of the standard
  library: \<open>None\<close> when it raises \<open>ValueError\<close>, else the day (the ordinal of the date)
  and the minute of the day. Adding the duration raises \<open>OverflowError\<close> past the last
  day of the year 9999, the ordinal 3652059.
\<close>

definition max_ordinal :: nat where
  "max_ordinal = 3652059"

definition generate_flight ::
  "(string \<Rightarrow> (nat \<times> nat) option) \<Rightarrow> string \<Rightarrow> string \<Rightarrow> string \<Rightarrow> rng \<Rightarrow> (exn + flight) \<times> rng" where
  "generate_flight strptime_hm src dst date g0 =
     (case choice airlines g0 of ((name, lo, hi), g1) \<Rightarrow>
      case randint lo hi g1 of (base_price, g2) \<Rightarrow>
      case randint (- 50) 100 g2 of (jitter, g3) \<Rightarrow>
      case duration_range src dst of (dlo, dhi) \<Rightarrow>
      case randint dlo dhi g3 of (minutes, g4) \<Rightarrow>
      case randint 6 22 g4 of (departure_hour, g5) \<Rightarrow>
      case choice [0, 15, 30, 45] g5 of (departure_minute, g6) \<Rightarrow>
      let departure = pad2 departure_hour @ '':'' @ pad2 departure_minute in
      case strptime_hm (date @ '' '' @ departure) of
        None \<Rightarrow> (Inl ValueError, g6)
      | Some (day, minute) \<Rightarrow>
          let total = int minute + minutes in
          if int max_ordinal < int day + total div 1440 then (Inl OverflowError, g6)
          else
            let arrival = pad2 (total mod 1440 div 60) @ '':'' @ pad2 (total mod 1440 mod 60)
                            @ (if 0 < total div 1440 then '' +1'' else []) in
            case choices_stops g6 of (stop, g7) \<Rightarrow>
            case (if stop = ''Nonstop''
                  then (case randint 50 150 g7 of (d, g8) \<Rightarrow> (base_price + jitter + d, g8))
                  else if stop = ''2 stops''
                  then (case randint 30 100 g7 of (d, g8) \<Rightarrow> (base_price + jitter - d, g8))
                  else (base_price + jitter, g7)) of
              (p, g8) \<Rightarrow>
                (Inr \<lparr>airline = Some name,
                      departure_time = Some departure,
                      arrival_time = Some arrival,
                      duration = Some (str_int (minutes div 60) @ ''h '' @ str_int (minutes mod 60) @ ''m''),
                      duration_minutes = Some (Fin minutes),
                      price = Some (CHR ''$'' # str_int p),
                      price_numeric = Some (Fin p),
                      stops = Some stop,
                      departure_airport = Some (upper src),
                      arrival_airport = Some (upper dst),
                      website = Some ''Demo Data''\<rparr>, g8))"

text \<open>The loop \<open>for i in range(num_flights)\<close>; an exception leaves it.\<close>

fun generate_flights ::
  "(string \<Rightarrow> (nat \<times> nat) option) \<Rightarrow> nat \<Rightarrow> string \<Rightarrow> string \<Rightarrow> string \<Rightarrow> rng \<Rightarrow>
   (exn + flight list) \<times> rng" where
  "generate_flights strptime_hm 0 src dst date g = (Inr [], g)"
| "generate_flights strptime_hm (Suc n) src dst date g =
     (case generate_flight strptime_hm src dst date g of
        (Inl e, g') \<Rightarrow> (Inl e, g')
      | (Inr f, g') \<Rightarrow>
          (case generate_flights strptime_hm n src dst date g' of
             (Inl e, g'') \<Rightarrow> (Inl e, g'')
           | (Inr fs, g'') \<Rightarrow> (Inr (f # fs), g'')))"

definition sort_by_price :: "flight list \<Rightarrow> exn + flight list" where
  \<comment> \<open>\<open>flights.sort(key=lambda x: x['price_numeric'])\<close>\<close>
  "sort_by_price flights =
     (if list_all (\<lambda>x. price_numeric x \<noteq> None) flights
      then Inr (sort_key (\<lambda>x. the (price_numeric x)) flights)
      else Inl KeyError)"

definition demo_search_flights ::
  "(string \<Rightarrow> (nat \<times> nat) option) \<Rightarrow> config \<Rightarrow> string \<Rightarrow> string \<Rightarrow> string \<Rightarrow>
   string option \<Rightarrow> int \<Rightarrow> string \<Rightarrow> rng \<Rightarrow> (exn + flight list) \<times> rng" where
  "demo_search_flights strptime_hm cfg src dst date ret pass cls g =
     (case subscript (search_settings cfg) of Inl e \<Rightarrow> (Inl e, g) | Inr ssv \<Rightarrow>
      case container ssv of Inl e \<Rightarrow> (Inl e, g) | Inr ss \<Rightarrow>
      case subscript (max_results ss) of Inl e \<Rightarrow> (Inl e, g) | Inr mv \<Rightarrow>
      case mv of
        Null \<Rightarrow> (Inl TypeError, g)
      | Val m \<Rightarrow>
          let num_flights = min m 8 in
          case generate_flights strptime_hm (nat num_flights) src dst date g of
            (Inl e, g') \<Rightarrow> (Inl e, g')
          | (Inr flights, g') \<Rightarrow> (sort_by_price flights, g'))"

section \<open>Notions of the specification\<close>

text \<open>
  The state in which website number \<open>k\<close> of the list is reached when every website
  before it has been called, the outcome of the call made there, and the outcomes after
  which the loop goes on: an exception or an empty list.
\<close>

fun state_before ::
  "(string nullable \<Rightarrow> query \<Rightarrow> 'st \<Rightarrow> (exn + flight list) \<times> 'st) \<Rightarrow> query \<Rightarrow>
   string nullable list \<Rightarrow> nat \<Rightarrow> 'st \<Rightarrow> 'st" where
  "state_before scrape q ws 0 st = st"
| "state_before scrape q [] (Suc k) st = st"
| "state_before scrape q (w # ws) (Suc k) st = state_before scrape q ws k (snd (scrape w q st))"

definition outcome ::
  "(string nullable \<Rightarrow> query \<Rightarrow> 'st \<Rightarrow> (exn + flight list) \<times> 'st) \<Rightarrow> query \<Rightarrow>
   string nullable list \<Rightarrow> 'st \<Rightarrow> nat \<Rightarrow> exn + flight list" where
  "outcome scrape q ws st k = fst (scrape (ws ! k) q (state_before scrape q ws k st))"

definition rejected :: "exn + flight list \<Rightarrow> bool" where
  "rejected r = (case r of Inl e \<Rightarrow> True | Inr fs \<Rightarrow> fs = [])"

text \<open>
  The arguments that every scraper is called with: the source, the destination, the
  travel date, the number of passengers and the class of the flight search, and its
  return date, which is \<open>None\<close> when the key is missing. Without one of the five keys
  there are no arguments and no call.
\<close>

definition call_arguments :: "flight_search_cfg \<Rightarrow> query option" where
  "call_arguments f =
     (case (source f, destination f, travel_date f, passengers f, flight_class f) of
        (Some s, Some d, Some t, Some n, Some c) \<Rightarrow>
          Some \<lparr>q_source = s, q_destination = d, q_travel_date = t,
                q_return_date = (case return_date f of None \<Rightarrow> Null | Some r \<Rightarrow> r),
                q_passengers = n, q_flight_class = c\<rparr>
      | _ \<Rightarrow> None)"

text \<open>The number that the first match of a pattern contributes, 0 without a match.\<close>

definition first_or_zero :: "string list \<Rightarrow> int" where
  "first_or_zero ms = (case ms of [] \<Rightarrow> 0 | m # _ \<Rightarrow> int (nat_of_digits m))"

text \<open>
  The configurations that validation refuses, in the words of its error messages: a
  missing section; in the flight search a source, destination or travel date that is
  missing, \<open>null\<close> or empty, a travel date or a given return date that is not a date; in
  the websites a missing primary website or one that is not supported.
\<close>

definition missing_or_empty :: "string nullable option \<Rightarrow> bool" where
  "missing_or_empty v = (v = None \<or> v = Some Null \<or> v = Some (Val []))"

definition flight_search_refused :: "(string \<Rightarrow> bool) \<Rightarrow> flight_search_cfg \<Rightarrow> bool" where
  "flight_search_refused strptime f =
     (missing_or_empty (source f) \<or> missing_or_empty (destination f) \<or>
      missing_or_empty (travel_date f) \<or>
      (case travel_date f of Some (Val d) \<Rightarrow> \<not> strptime d | _ \<Rightarrow> False) \<or>
      (case return_date f of Some (Val r) \<Rightarrow> r \<noteq> [] \<and> \<not> strptime r | _ \<Rightarrow> False))"



text \<open>
  A numeric field that carries the sentinel: the key is missing or its value is
  \<open>float('inf')\<close>.
\<close>

definition sentinel :: "number option \<Rightarrow> bool" where
  "sentinel v = (v = None \<or> v = Some PInf)"

section \<open>Sample data\<close>

text \<open>The record that \<open>BookingScraper.search_flights\<close> returns for every query.\<close>

definition booking_flight :: flight where
  "booking_flight =
     \<lparr>airline = Some ''Sample Airline'',
      departure_time = Some ''12:00 PM'',
      arrival_time = Some ''4:00 PM'',
      duration = Some ''4h 0m'',
      duration_minutes = Some (Fin 240),
      price = Some ''$350'',
      price_numeric = Some (Fin 350),
      stops = Some ''1 stop'',
      departure_airport = None,
      arrival_airport = None,
      website = Some ''Booking.com''\<rparr>"

text \<open>
  Three websites: the first finds nothing, the second fails, the third returns the
  Booking record. The state counts the calls.
\<close>

definition sample_scrape :: "string nullable \<Rightarrow> query \<Rightarrow> nat \<Rightarrow> (exn + flight list) \<times> nat" where
  "sample_scrape w q st =
     (if w = Val ''kayak'' then (Inr [], Suc st)
      else if w = Val ''expedia'' then (Inl ScraperError, Suc st)
      else (Inr [booking_flight], Suc st))"

text \<open>Three flights: one without a price, two with the prices 500 and 200.\<close>

definition flight_unpriced :: flight where
  "flight_unpriced = booking_flight\<lparr>airline := Some ''A'', price_numeric := None,
     duration_minutes := Some (Fin 100), departure_time := Some ''09:00''\<rparr>"

definition flight_500 :: flight where
  "flight_500 = booking_flight\<lparr>airline := Some ''B'', price_numeric := Some (Fin 500),
     duration_minutes := Some PInf, departure_time := Some ''07:30''\<rparr>"

definition flight_200 :: flight where
  "flight_200 = booking_flight\<lparr>airline := Some ''C'', price_numeric := Some (Fin 200),
     duration_minutes := Some (Fin 90), departure_time := Some ''21:15''\<rparr>"

definition three_flights :: "flight list" where
  "three_flights = [flight_unpriced, flight_500, flight_200]"

text \<open>
  Two more flights: one with the price, the duration and the departure time of flights
  above, and one whose price is \<open>float('inf')\<close> and whose duration and departure time
  are missing.
\<close>

definition flight_500_late :: flight where
  "flight_500_late = booking_flight\<lparr>airline := Some ''D'', price_numeric := Some (Fin 500),
     duration_minutes := Some (Fin 100), departure_time := Some ''07:30''\<rparr>"

definition flight_unknown :: flight where
  "flight_unknown = booking_flight\<lparr>airline := Some ''E'', price_numeric := Some PInf,
     duration_minutes := None, departure_time := None\<rparr>"

definition five_flights :: "flight list" where
  "five_flights = [flight_unpriced, flight_500, flight_200, flight_500_late, flight_unknown]"

definition scrape_three :: "string nullable \<Rightarrow> query \<Rightarrow> nat \<Rightarrow> (exn + flight list) \<times> nat" where
  "scrape_three w q st = (Inr three_flights, Suc st)"

text \<open>A date oracle that accepts ten characters of the shape \<open>dddd-dd-dd\<close>.\<close>

definition sample_strptime :: "string \<Rightarrow> bool" where
  "sample_strptime s =
     (length s = 10 \<and> s ! 4 = CHR ''-'' \<and> s ! 7 = CHR ''-'' \<and>
      list_all is_digit (take 4 s @ take 2 (drop 5 s) @ drop 8 s))"

text \<open>
  A date and time oracle that knows one day, 15 June 2024 with the ordinal 739052, and
  reads the time after it.
\<close>

definition sample_strptime_hm :: "string \<Rightarrow> (nat \<times> nat) option" where
  "sample_strptime_hm s =
     (if take 11 s = ''2024-06-15 '' \<and> length s = 16
      then Some (739052, 60 * nat_of_digits (take 2 (drop 11 s)) + nat_of_digits (drop 14 s))
      else None)"

definition zero_rng :: rng where
  "zero_rng = (\<lambda>i. 0)"

definition sample_search :: flight_search_cfg where
  "sample_search =
     \<lparr>source = Some (Val ''nyc''), destination = Some (Val ''LAX''),
      travel_date = Some (Val ''2024-06-15''), return_date = Some Null,
      passengers = Some (Val 1), flight_class = Some (Val ''economy'')\<rparr>"

definition sample_websites :: websites_cfg where
  "sample_websites =
     \<lparr>primary = Some (Val ''kayak''),
      fallback = Some (Val [Val ''expedia'', Val ''booking''])\<rparr>"

definition sample_settings :: search_settings_cfg where
  "sample_settings =
     \<lparr>max_results = Some (Val 2), sort_by = Some (Val ''price''), timeout = Some (Val 30),
      retry_attempts = Some (Val 3)\<rparr>"

definition sample_config :: config where
  "sample_config =
     \<lparr>flight_search = Some (Val sample_search), websites = Some (Val sample_websites),
      search_settings = Some (Val sample_settings), browser_settings = Some (Val ())\<rparr>"

definition sample_query :: query where
  "sample_query =
     \<lparr>q_source = Val ''nyc'', q_destination = Val ''LAX'', q_travel_date = Val ''2024-06-15'',
      q_return_date = Null, q_passengers = Val 1, q_flight_class = Val ''economy''\<rparr>"

definition sample_sites :: "string nullable list" where
  "sample_sites = [Val ''kayak'', Val ''expedia'', Val ''booking'']"

text \<open>The sample configuration with other search settings.\<close>

definition with_settings :: "search_settings_cfg \<Rightarrow> config" where
  "with_settings ss = sample_config\<lparr>search_settings := Some (Val ss)\<rparr>"

text \<open>The sample configuration with a negative \<open>max_results\<close>.\<close>

definition negative_cap_config :: config where
  "negative_cap_config = with_settings (sample_settings\<lparr>max_results := Some (Val (- 1))\<rparr>)"

text \<open>
  The sample configuration with a sort key that is none of the three, and with the sort
  key \<open>null\<close>.
\<close>

definition unsorted_config :: config where
  "unsorted_config = with_settings (sample_settings\<lparr>sort_by := Some (Val ''airline'')\<rparr>)"

definition null_sort_config :: config where
  "null_sort_config = with_settings (sample_settings\<lparr>sort_by := Some Null\<rparr>)"



text \<open>The flight that the demo scraper generates when every raw draw is 0.\<close>

definition demo_flight_0 :: flight where
  "demo_flight_0 =
     \<lparr>airline = Some ''American Airlines'',
      departure_time = Some ''06:00'',
      arrival_time = Some ''11:30'',
      duration = Some ''5h 30m'',
      duration_minutes = Some (Fin 330),
      price = Some ''$200'',
      price_numeric = Some (Fin 200),
      stops = Some ''Nonstop'',
      departure_airport = Some ''NYC'',
      arrival_airport = Some ''LAX'',
      website = Some ''Demo Data''\<rparr>"

section \<open>The price parser\<close>

lemma findall_class_Nil: "\<not> list_ex P s \<Longrightarrow> findall_class P s = []"
proof -
  assume "\<not> list_ex P s"
  then have "dropWhile (\<lambda>c. \<not> P c) s = []"
    by (simp add: list_ex_iff)
  then show ?thesis
    by (subst findall_class.simps) (simp only: list.case)
qed

lemma findall_class_first:
  assumes "list_ex P s"
  shows "\<exists>rest. findall_class P s = takeWhile P (dropWhile (\<lambda>c. \<not> P c) s) # rest"
proof -
  from assms have "dropWhile (\<lambda>c. \<not> P c) s \<noteq> []"
    by (simp add: list_ex_iff)
  then obtain c cs where "dropWhile (\<lambda>c. \<not> P c) s = c # cs"
    by (cases "dropWhile (\<lambda>c. \<not> P c) s") auto
  then show ?thesis
    by (subst findall_class.simps) simp
qed

lemma digit_not_comma: "is_digit c \<Longrightarrow> c \<noteq> CHR '',''"
  by (auto simp: is_digit_def)

lemma list_ex_replace_comma: "list_ex is_digit (replace_comma s) = list_ex is_digit s"
  by (auto simp: replace_comma_def list_ex_iff dest: digit_not_comma)

lemma py_float_digits:
  "run \<noteq> [] \<Longrightarrow> list_all is_digit run \<Longrightarrow>
   py_float run = Inr (float_of_nat (nat_of_digits run))"
  by (simp add: py_float_def)

text \<open>A text with a character of a class splits at the first run of the class.\<close>

lemma split_first_run:
  assumes "list_ex P t"
  shows "t = takeWhile (\<lambda>c. \<not> P c) t @ takeWhile P (dropWhile (\<lambda>c. \<not> P c) t)
               @ dropWhile P (dropWhile (\<lambda>c. \<not> P c) t)"
    and "takeWhile P (dropWhile (\<lambda>c. \<not> P c) t) \<noteq> []"
    and "list_all P (takeWhile P (dropWhile (\<lambda>c. \<not> P c) t))"
    and "list_all (\<lambda>c. \<not> P c) (takeWhile (\<lambda>c. \<not> P c) t)"
    and "dropWhile P (dropWhile (\<lambda>c. \<not> P c) t) = [] \<or>
         \<not> P (hd (dropWhile P (dropWhile (\<lambda>c. \<not> P c) t)))"
proof -
  show "t = takeWhile (\<lambda>c. \<not> P c) t @ takeWhile P (dropWhile (\<lambda>c. \<not> P c) t)
               @ dropWhile P (dropWhile (\<lambda>c. \<not> P c) t)"
    by simp
  from assms have ne: "dropWhile (\<lambda>c. \<not> P c) t \<noteq> []"
    by (simp add: list_ex_iff)
  then have "P (hd (dropWhile (\<lambda>c. \<not> P c) t))"
    using hd_dropWhile [of "\<lambda>c. \<not> P c" t] by simp
  with ne show "takeWhile P (dropWhile (\<lambda>c. \<not> P c) t) \<noteq> []"
    by (cases "dropWhile (\<lambda>c. \<not> P c) t") auto
  show "list_all P (takeWhile P (dropWhile (\<lambda>c. \<not> P c) t))"
    by (auto simp: list_all_iff dest: set_takeWhileD)
  show "list_all (\<lambda>c. \<not> P c) (takeWhile (\<lambda>c. \<not> P c) t)"
    by (auto simp: list_all_iff dest: set_takeWhileD)
  show "dropWhile P (dropWhile (\<lambda>c. \<not> P c) t) = [] \<or>
         \<not> P (hd (dropWhile P (dropWhile (\<lambda>c. \<not> P c) t)))"
    using hd_dropWhile [of P "dropWhile (\<lambda>c. \<not> P c) t"] by blast
qed

lemma parse_price_first_run:
  assumes "list_ex is_digit s"
  shows "parse_price s = Inr (strip s, float_of_nat (nat_of_digits
           (takeWhile is_digit (dropWhile (\<lambda>c. \<not> is_digit c) (replace_comma s)))))"
proof -
  let ?t = "replace_comma s"
  let ?P = "\<lambda>c. is_digit c \<or> c = CHR '',''"
  let ?run = "takeWhile is_digit (dropWhile (\<lambda>c. \<not> is_digit c) ?t)"
  have ex: "list_ex is_digit ?t"
    using assms by (simp add: list_ex_replace_comma)
  have d: "dropWhile (\<lambda>c. \<not> ?P c) ?t = dropWhile (\<lambda>c. \<not> is_digit c) ?t"
    by (rule dropWhile_cong) (auto simp: replace_comma_def)
  have "set (dropWhile (\<lambda>c. \<not> is_digit c) ?t) \<subseteq> set ?t"
    by (auto dest: set_dropWhileD)
  then have t: "takeWhile ?P (dropWhile (\<lambda>c. \<not> is_digit c) ?t) = ?run"
    by (intro takeWhile_cong) (auto simp: replace_comma_def)
  have "list_ex ?P ?t"
    using ex by (auto simp: list_ex_iff)
  then obtain rest where
    "findall_class ?P ?t = takeWhile ?P (dropWhile (\<lambda>c. \<not> ?P c) ?t) # rest"
    using findall_class_first by blast
  then have fa: "findall_class ?P ?t = ?run # rest"
    by (simp only: d t)
  have "?run \<noteq> []" "list_all is_digit ?run"
    using split_first_run(2,3) [OF ex] by auto
  then have "py_float ?run = Inr (float_of_nat (nat_of_digits ?run))"
    by (rule py_float_digits)
  moreover have "s \<noteq> []"
    using assms by auto
  ultimately show ?thesis
    using fa by (simp add: parse_price_def)
qed

lemma parse_price_no_digit:
  assumes "s \<noteq> []" "\<not> list_ex is_digit s"
  shows "parse_price s = Inr (strip s, PInf)"
proof -
  have "\<not> list_ex (\<lambda>c. is_digit c \<or> c = CHR '','') (replace_comma s)"
    using assms(2) by (auto simp: list_ex_iff replace_comma_def)
  then have "findall_class (\<lambda>c. is_digit c \<or> c = CHR '','') (replace_comma s) = []"
    by (rule findall_class_Nil)
  then show ?thesis
    using assms(1) by (simp add: parse_price_def)
qed

text \<open>
  Claim C2. For every text, \<open>parse_price\<close> returns a pair and raises nothing. The empty
  text gives \<open>("N/A", inf)\<close>. A text without a digit gives the stripped text and
  \<open>inf\<close>. A text with a digit gives the stripped text and the float of the first run of
  digits of the text without its commas: that text is \<open>pre @ run @ post\<close> with no digit
  in \<open>pre\<close>, a non-empty \<open>run\<close> of digits, and no digit at the head of \<open>post\<close>.
\<close>

theorem parse_price_spec:
  "(s = [] \<longrightarrow> parse_price s = Inr (''N/A'', PInf)) \<and>
   (s \<noteq> [] \<and> \<not> list_ex is_digit s \<longrightarrow> parse_price s = Inr (strip s, PInf)) \<and>
   (list_ex is_digit s \<longrightarrow>
      (\<exists>pre run post.
         replace_comma s = pre @ run @ post \<and>
         list_all (\<lambda>c. \<not> is_digit c) pre \<and>
         run \<noteq> [] \<and> list_all is_digit run \<and>
         (post = [] \<or> \<not> is_digit (hd post)) \<and>
         parse_price s = Inr (strip s, float_of_nat (nat_of_digits run))))"
proof (intro conjI impI)
  assume "s = []"
  then show "parse_price s = Inr (''N/A'', PInf)"
    by (simp add: parse_price_def)
next
  assume "s \<noteq> [] \<and> \<not> list_ex is_digit s"
  then show "parse_price s = Inr (strip s, PInf)"
    by (simp add: parse_price_no_digit)
next
  assume ex: "list_ex is_digit s"
  then have ex': "list_ex is_digit (replace_comma s)"
    by (simp add: list_ex_replace_comma)
  show "\<exists>pre run post.
         replace_comma s = pre @ run @ post \<and>
         list_all (\<lambda>c. \<not> is_digit c) pre \<and>
         run \<noteq> [] \<and> list_all is_digit run \<and>
         (post = [] \<or> \<not> is_digit (hd post)) \<and>
         parse_price s = Inr (strip s, float_of_nat (nat_of_digits run))"
    using split_first_run [OF ex'] parse_price_first_run [OF ex] by blast
qed

theorem parse_price_spec_witness:
  "list_ex is_digit ''$1,234 round trip'' \<and>
   (\<exists>pre run post.
      replace_comma ''$1,234 round trip'' = pre @ run @ post \<and>
      list_all (\<lambda>c. \<not> is_digit c) pre \<and>
      run \<noteq> [] \<and> list_all is_digit run \<and>
      (post = [] \<or> \<not> is_digit (hd post)) \<and>
      parse_price ''$1,234 round trip'' =
        Inr (strip ''$1,234 round trip'', float_of_nat (nat_of_digits run)))"
proof -
  have d: "list_ex is_digit ''$1,234 round trip''"
    by (simp add: is_digit_def)
  with parse_price_spec [of "''$1,234 round trip''"] show ?thesis
    by blast
qed

text \<open>The price of the specification's example, and a run too long for a double.\<close>

lemma parse_price_example:
  "parse_price ''$1,234 round trip'' = Inr (''$1,234 round trip'', Fin 1234)"
  by (simp add: parse_price_def replace_comma_def findall_class.simps is_digit_def
        strip_def is_space_def py_float_def float_of_nat_def nat_of_digits_def digit_val_def)

section \<open>The duration parser\<close>

lemma not_digit_letter: "\<not> is_digit CHR ''h''" "\<not> is_digit CHR ''m''"
  by (simp_all add: is_digit_def)

lemma findall_digits_then_run:
  assumes "list_all is_digit ds" and "\<not> is_digit l" and "acc @ ds \<noteq> []"
  shows "findall_digits_then l acc (ds @ l # rest) = (acc @ ds) # findall_digits_then l [] rest"
  using assms
proof (induction ds arbitrary: acc)
  case Nil
  then show ?case by simp
next
  case (Cons d ds)
  then have "findall_digits_then l (acc @ [d]) (ds @ l # rest) =
               ((acc @ [d]) @ ds) # findall_digits_then l [] rest"
    by (intro Cons.IH) simp_all
  with Cons.prems show ?case by simp
qed

lemma findall_digits_then_length:
  "m \<in> set (findall_digits_then l acc s) \<Longrightarrow> length m \<le> length acc + length s"
proof (induction s arbitrary: acc)
  case Nil
  then show ?case by simp
next
  case (Cons c cs)
  show ?case
  proof (cases "is_digit c")
    case True
    with Cons.prems have "m \<in> set (findall_digits_then l (acc @ [c]) cs)"
      by simp
    from Cons.IH [OF this] show ?thesis by simp
  next
    case False
    show ?thesis
    proof (cases "c = l \<and> acc \<noteq> []")
      case True
      with False Cons.prems have "m = acc \<or> m \<in> set (findall_digits_then l [] cs)"
        by simp
      then show ?thesis
        using Cons.IH [of "[]"] by auto
    next
      case False
      with \<open>\<not> is_digit c\<close> Cons.prems have "m \<in> set (findall_digits_then l [] cs)"
        by auto
      from Cons.IH [OF this] show ?thesis by simp
    qed
  qed
qed

lemma py_int_within:
  "lim = 0 \<or> length s \<le> lim \<Longrightarrow> py_int lim s = Inr (int (nat_of_digits s))"
  by (auto simp: py_int_def)

text \<open>
  With the limit of \<open>int\<close> switched off, or a text no longer than the limit, the parser
  returns: the stripped text, and 60 times the first hour count plus the first minute
  count, or \<open>inf\<close> when that sum is 0.
\<close>

lemma parse_duration_within_limit:
  assumes "s \<noteq> []" and "lim = 0 \<or> length s \<le> lim"
  shows "parse_duration lim s =
           Inr (strip s,
                let total = 60 * first_or_zero (findall_digits_then CHR ''h'' [] s)
                            + first_or_zero (findall_digits_then CHR ''m'' [] s)
                in if 0 < total then Fin total else PInf)"
proof -
  have short: "py_int lim m = Inr (int (nat_of_digits m))"
    if "m \<in> set (findall_digits_then l [] s)" for m l
    using findall_digits_then_length [of m l "[]" s] assms(2) that
    by (intro py_int_within) auto
  show ?thesis
  proof (cases "findall_digits_then CHR ''h'' [] s")
    case hN: Nil
    show ?thesis
    proof (cases "findall_digits_then CHR ''m'' [] s")
      case Nil
      with hN assms(1) show ?thesis
        by (simp add: parse_duration_def first_or_zero_def)
    next
      case (Cons m ms)
      then have "py_int lim m = Inr (int (nat_of_digits m))"
        using short [of m "CHR ''m''"] by simp
      with hN Cons assms(1) show ?thesis
        by (simp add: parse_duration_def first_or_zero_def Let_def)
    qed
  next
    case hC: (Cons h hs)
    then have h: "py_int lim h = Inr (int (nat_of_digits h))"
      using short [of h "CHR ''h''"] by simp
    show ?thesis
    proof (cases "findall_digits_then CHR ''m'' [] s")
      case Nil
      with hC h assms(1) show ?thesis
        by (simp add: parse_duration_def first_or_zero_def Let_def mult.commute)
    next
      case (Cons m ms)
      then have "py_int lim m = Inr (int (nat_of_digits m))"
        using short [of m "CHR ''m''"] by simp
      with hC h Cons assms(1) show ?thesis
        by (simp add: parse_duration_def first_or_zero_def Let_def mult.commute)
    qed
  qed
qed

lemma parse_duration_examples:
  "parse_duration default_max_str_digits ''3h'' = Inr (''3h'', Fin 180)"
  "parse_duration default_max_str_digits ''45m'' = Inr (''45m'', Fin 45)"
  "parse_duration default_max_str_digits ''garbled'' = Inr (''garbled'', PInf)"
  "parse_duration default_max_str_digits [] = Inr (''N/A'', PInf)"
  by (simp_all add: parse_duration_def is_digit_def strip_def is_space_def py_int_def
        nat_of_digits_def digit_val_def default_max_str_digits_def)

text \<open>
  Claim C3 says that \<open>parse_duration\<close> returns a pair for every text and raises nothing.
  On an interpreter with the default limit of \<open>int\<close> it raises: for the text of 4301
  nines followed by \<open>h\<close> the hour count has more digits than \<open>int\<close> converts, and the
  \<open>ValueError\<close> leaves the parser, which has no handler around the conversion.
\<close>

theorem parse_duration_raises:
  "parse_duration default_max_str_digits (replicate 4301 CHR ''9'' @ ''h'') = Inl ValueError"
proof -
  let ?ds = "replicate 4301 CHR ''9''"
  have all: "list_all is_digit ?ds"
    by (simp add: list_all_iff is_digit_def)
  have "findall_digits_then CHR ''h'' [] (?ds @ CHR ''h'' # []) =
          ([] @ ?ds) # findall_digits_then CHR ''h'' [] []"
    by (rule findall_digits_then_run [OF all not_digit_letter(1)]) simp
  then have hours: "findall_digits_then CHR ''h'' [] (?ds @ ''h'') = [?ds]"
    by simp
  have "py_int default_max_str_digits ?ds = Inl ValueError"
    by (simp add: py_int_def default_max_str_digits_def)
  with hours show ?thesis
    by (simp add: parse_duration_def)
qed

section \<open>The fallback chain of the agent\<close>

lemma subscript_Some: "subscript (Some x) = Inr x"
  by (simp add: subscript_def)

lemma subscript_None: "subscript None = Inl KeyError"
  by (simp add: subscript_def)

lemma container_Val: "container (Val x) = Inr x"
  by (simp add: container_def)

lemma outcome_Cons_0: "outcome scrape q (w # ws) st 0 = fst (scrape w q st)"
  by (simp add: outcome_def)

lemma outcome_Cons_Suc:
  "outcome scrape q (w # ws) st (Suc i) = outcome scrape q ws (snd (scrape w q st)) i"
  by (simp add: outcome_def)

text \<open>The loop stops at the first website whose list is not empty.\<close>

lemma try_websites_accepts:
  assumes "search_args cfg = Inr q"
  shows "k < length ws \<Longrightarrow> (\<forall>i<k. rejected (outcome scrape q ws st i)) \<Longrightarrow>
         outcome scrape q ws st k = Inr fs \<Longrightarrow> fs \<noteq> [] \<Longrightarrow>
         try_websites scrape cfg ws (st, called) =
           (fs, state_before scrape q ws (Suc k) st, called @ take (Suc k) ws)"
proof (induction ws arbitrary: k st called)
  case Nil
  then show ?case by simp
next
  case (Cons w ws)
  obtain r st' where sc: "scrape w q st = (r, st')"
    by (cases "scrape w q st")
  show ?case
  proof (cases k)
    case 0
    with Cons.prems sc have "r = Inr fs"
      by (simp add: outcome_Cons_0)
    with 0 sc assms Cons.prems(4) show ?thesis
      by simp
  next
    case (Suc k')
    from Cons.prems(2) Suc have "rejected (outcome scrape q (w # ws) st 0)"
      by blast
    with sc have rej: "rejected r"
      by (simp add: outcome_Cons_0)
    have k': "k' < length ws"
      using Cons.prems(1) Suc by simp
    have before: "\<forall>i<k'. rejected (outcome scrape q ws st' i)"
    proof (intro allI impI)
      fix i assume "i < k'"
      then have "rejected (outcome scrape q (w # ws) st (Suc i))"
        using Cons.prems(2) Suc by simp
      then show "rejected (outcome scrape q ws st' i)"
        using sc by (simp add: outcome_Cons_Suc)
    qed
    have at: "outcome scrape q ws st' k' = Inr fs"
      using Cons.prems(3) Suc sc by (simp add: outcome_Cons_Suc)
    have "try_websites scrape cfg ws (st', called @ [w]) =
            (fs, state_before scrape q ws (Suc k') st', (called @ [w]) @ take (Suc k') ws)"
      by (rule Cons.IH [OF k' before at Cons.prems(4)])
    moreover have "try_websites scrape cfg (w # ws) (st, called) =
                     try_websites scrape cfg ws (st', called @ [w])"
      using rej sc assms by (cases r) (simp_all add: rejected_def)
    ultimately show ?thesis
      using Suc sc by simp
  qed
qed

text \<open>When every website is rejected the loop calls them all and ends with nothing.\<close>

lemma try_websites_exhausted:
  assumes "search_args cfg = Inr q"
  shows "(\<forall>i<length ws. rejected (outcome scrape q ws st i)) \<Longrightarrow>
         try_websites scrape cfg ws (st, called) =
           ([], state_before scrape q ws (length ws) st, called @ ws)"
proof (induction ws arbitrary: st called)
  case Nil
  then show ?case by simp
next
  case (Cons w ws)
  obtain r st' where sc: "scrape w q st = (r, st')"
    by (cases "scrape w q st")
  from Cons.prems have "rejected (outcome scrape q (w # ws) st 0)"
    by simp
  with sc have rej: "rejected r"
    by (simp add: outcome_Cons_0)
  have rest: "\<forall>i<length ws. rejected (outcome scrape q ws st' i)"
  proof (intro allI impI)
    fix i assume "i < length ws"
    then have "rejected (outcome scrape q (w # ws) st (Suc i))"
      using Cons.prems by simp
    then show "rejected (outcome scrape q ws st' i)"
      using sc by (simp add: outcome_Cons_Suc)
  qed
  have "try_websites scrape cfg (w # ws) (st, called) =
          try_websites scrape cfg ws (st', called @ [w])"
    using rej sc assms by (cases r) (simp_all add: rejected_def)
  with Cons.IH [OF rest, of "called @ [w]"] sc show ?case
    by simp
qed

text \<open>
  When the arguments cannot be read, every pass through the loop leaves the \<open>try\<close> before
  the scraper is called.
\<close>

lemma try_websites_no_arguments:
  "search_args cfg = Inl e \<Longrightarrow> try_websites scrape cfg ws (st, called) = ([], st, called)"
  by (induction ws) simp_all

text \<open>The fields that the agent reads before the loop, and the arguments it reads in it.\<close>

lemma websites_to_try_fields:
  assumes "websites cfg = Some (Val w)" "primary w = Some p" "fallback w = Some (Val fb)"
  shows "websites_to_try cfg = Inr (p # fb)"
  using assms by (simp add: websites_to_try_def subscript_Some container_Val)

lemma search_flights_unfold:
  assumes "flight_search cfg = Some (Val f)" "source f = Some s" "destination f = Some d"
    "travel_date f = Some t" "websites_to_try cfg = Inr ws"
    and "try_websites scrape cfg ws (st, []) = (fs, st', called)"
  shows "search_flights scrape cfg st = (postprocess cfg fs, st', called)"
  using assms by (simp add: search_flights_def subscript_Some container_Val)

lemma search_args_call_arguments:
  assumes "flight_search cfg = Some (Val f)"
  shows "call_arguments f = Some q \<Longrightarrow> search_args cfg = Inr q"
    and "source f = Some s \<Longrightarrow> destination f = Some d \<Longrightarrow> travel_date f = Some t \<Longrightarrow>
         call_arguments f = None \<Longrightarrow> search_args cfg = Inl KeyError"
proof -
  show "search_args cfg = Inr q" if "call_arguments f = Some q"
  proof -
    from that obtain s d t n c where 1: "source f = Some s" "destination f = Some d"
      "travel_date f = Some t" "passengers f = Some n" "flight_class f = Some c"
      by (cases "source f"; cases "destination f"; cases "travel_date f";
          cases "passengers f"; cases "flight_class f") (simp_all add: call_arguments_def)
    with that have "q = \<lparr>q_source = s, q_destination = d, q_travel_date = t,
        q_return_date = (case return_date f of None \<Rightarrow> Null | Some r \<Rightarrow> r),
        q_passengers = n, q_flight_class = c\<rparr>"
      by (simp add: call_arguments_def)
    with assms 1 show ?thesis
      by (simp add: search_args_def subscript_Some container_Val dict_get_def)
  qed
  show "search_args cfg = Inl KeyError"
    if "source f = Some s" "destination f = Some d" "travel_date f = Some t"
      "call_arguments f = None"
    using that assms
    by (cases "passengers f"; cases "flight_class f")
       (simp_all add: call_arguments_def search_args_def subscript_def container_Val)
qed

text \<open>
  Claim C1. Let the configuration have a primary website \<open>p\<close> and a fallback list
  \<open>fb\<close>, and let the source, the destination and the travel date that the agent logs be
  there. The websites of the search are \<open>p\<close> followed by \<open>fb\<close>, called in that order
  with the arguments of the flight search. If website number \<open>k\<close> of this list is the
  first whose scraper returns a list that is not empty (every one before it returned the
  empty list or raised), the websites called are exactly the first \<open>k + 1\<close>, none after
  it, and the result of the search is that list, post-processed. If every website returns
  the empty list or raises, all are called and the result is the empty list. If the
  arguments cannot be read, every pass through the loop raises before its scraper is
  called, and the result is the empty list.
\<close>

theorem first_success_wins:
  assumes "websites cfg = Some (Val w)" and "primary w = Some p"
    and "fallback w = Some (Val fb)"
    and "flight_search cfg = Some (Val f)" and "source f = Some s"
    and "destination f = Some d" and "travel_date f = Some t"
  shows "(\<forall>q k fs. call_arguments f = Some q \<and> k < length (p # fb) \<and>
                  (\<forall>i<k. rejected (outcome scrape q (p # fb) st i)) \<and>
                  outcome scrape q (p # fb) st k = Inr fs \<and> fs \<noteq> [] \<longrightarrow>
            search_flights scrape cfg st =
              (postprocess cfg fs, state_before scrape q (p # fb) (Suc k) st,
               take (Suc k) (p # fb))) \<and>
         (\<forall>q. call_arguments f = Some q \<and>
              (\<forall>i<length (p # fb). rejected (outcome scrape q (p # fb) st i)) \<longrightarrow>
            search_flights scrape cfg st =
              (Inr [], state_before scrape q (p # fb) (length (p # fb)) st, p # fb)) \<and>
         (call_arguments f = None \<longrightarrow> search_flights scrape cfg st = (Inr [], st, []))"
proof (intro conjI allI impI)
  note ws = websites_to_try_fields [OF assms(1-3)]
  note unfold = search_flights_unfold [OF assms(4-7) ws]
  {
    fix q k fs
    assume h: "call_arguments f = Some q \<and> k < length (p # fb) \<and>
               (\<forall>i<k. rejected (outcome scrape q (p # fb) st i)) \<and>
               outcome scrape q (p # fb) st k = Inr fs \<and> fs \<noteq> []"
    then have 0: "call_arguments f = Some q" and 1: "k < length (p # fb)"
      and 2: "\<forall>i<k. rejected (outcome scrape q (p # fb) st i)"
      and 3: "outcome scrape q (p # fb) st k = Inr fs" and 4: "fs \<noteq> []"
      by simp_all
    have a: "search_args cfg = Inr q"
      using assms(4) 0 by (rule search_args_call_arguments(1))
    have "try_websites scrape cfg (p # fb) (st, []) =
            (fs, state_before scrape q (p # fb) (Suc k) st, [] @ take (Suc k) (p # fb))"
      by (rule try_websites_accepts [OF a 1 2 3 4])
    then have "try_websites scrape cfg (p # fb) (st, []) =
            (fs, state_before scrape q (p # fb) (Suc k) st, take (Suc k) (p # fb))"
      by (simp only: append_Nil)
    then show "search_flights scrape cfg st =
                 (postprocess cfg fs, state_before scrape q (p # fb) (Suc k) st,
                  take (Suc k) (p # fb))"
      by (rule unfold)
  next
    fix q
    assume h: "call_arguments f = Some q \<and>
               (\<forall>i<length (p # fb). rejected (outcome scrape q (p # fb) st i))"
    have a: "search_args cfg = Inr q"
      using assms(4) h [THEN conjunct1] by (rule search_args_call_arguments(1))
    have "try_websites scrape cfg (p # fb) (st, []) =
            ([], state_before scrape q (p # fb) (length (p # fb)) st, [] @ (p # fb))"
      using h [THEN conjunct2] by (rule try_websites_exhausted [OF a])
    then have "try_websites scrape cfg (p # fb) (st, []) =
            ([], state_before scrape q (p # fb) (length (p # fb)) st, p # fb)"
      by (simp only: append_Nil)
    then have "search_flights scrape cfg st =
            (postprocess cfg [], state_before scrape q (p # fb) (length (p # fb)) st, p # fb)"
      by (rule unfold)
    then show "search_flights scrape cfg st =
            (Inr [], state_before scrape q (p # fb) (length (p # fb)) st, p # fb)"
      by (simp add: postprocess_def)
  next
    assume "call_arguments f = None"
    with assms(4-7) have "search_args cfg = Inl KeyError"
      by (intro search_args_call_arguments(2))
    then have "try_websites scrape cfg (p # fb) (st, []) = ([], st, [])"
      by (rule try_websites_no_arguments)
    then have "search_flights scrape cfg st = (postprocess cfg [], st, [])"
      by (rule unfold)
    then show "search_flights scrape cfg st = (Inr [], st, [])"
      by (simp add: postprocess_def)
  }
qed

lemma sample_config_fields:
  "websites sample_config = Some (Val sample_websites)"
  "flight_search sample_config = Some (Val sample_search)"
  "search_settings sample_config = Some (Val sample_settings)"
  by (simp_all add: sample_config_def)

lemma sample_websites_fields:
  "primary sample_websites = Some (Val ''kayak'')"
  "fallback sample_websites = Some (Val [Val ''expedia'', Val ''booking''])"
  by (simp_all add: sample_websites_def)

lemma sample_search_fields:
  "source sample_search = Some (Val ''nyc'')"
  "destination sample_search = Some (Val ''LAX'')"
  "travel_date sample_search = Some (Val ''2024-06-15'')"
  by (simp_all add: sample_search_def)

lemma sample_call_arguments: "call_arguments sample_search = Some sample_query"
  by (simp add: call_arguments_def sample_search_def sample_query_def)

lemma sample_websites_to_try: "websites_to_try sample_config = Inr sample_sites"
  unfolding sample_sites_def
  by (rule websites_to_try_fields [OF sample_config_fields(1) sample_websites_fields])

lemma sample_search_args: "search_args sample_config = Inr sample_query"
  by (rule search_args_call_arguments(1) [OF sample_config_fields(2) sample_call_arguments])

text \<open>
  A key whose value is \<open>null\<close> can be read: the scrapers are called with \<open>None\<close> for
  the number of passengers.
\<close>

lemma null_passengers_passed_on:
  "search_args
     (sample_config\<lparr>flight_search := Some (Val (sample_search\<lparr>passengers := Some Null\<rparr>))\<rparr>) =
   Inr (sample_query\<lparr>q_passengers := Null\<rparr>)"
  by (rule search_args_call_arguments(1) [of _ "sample_search\<lparr>passengers := Some Null\<rparr>"])
     (simp_all add: call_arguments_def sample_search_def sample_query_def)

theorem first_success_wins_witness:
  "websites sample_config = Some (Val sample_websites) \<and>
   primary sample_websites = Some (Val ''kayak'') \<and>
   fallback sample_websites = Some (Val [Val ''expedia'', Val ''booking'']) \<and>
   flight_search sample_config = Some (Val sample_search) \<and>
   source sample_search = Some (Val ''nyc'') \<and>
   destination sample_search = Some (Val ''LAX'') \<and>
   travel_date sample_search = Some (Val ''2024-06-15'') \<and>
   call_arguments sample_search = Some sample_query \<and>
   outcome sample_scrape sample_query sample_sites (0::nat) 0 = Inr [] \<and>
   outcome sample_scrape sample_query sample_sites (0::nat) 1 = Inl ScraperError \<and>
   outcome sample_scrape sample_query sample_sites (0::nat) 2 = Inr [booking_flight] \<and>
   search_flights sample_scrape sample_config (0::nat) =
     (postprocess sample_config [booking_flight], 3, sample_sites)"
proof -
  let ?ws = "Val ''kayak'' # [Val ''expedia'', Val ''booking'']"
  have ws: "sample_sites = ?ws"
    by (simp add: sample_sites_def)
  have o0: "outcome sample_scrape sample_query ?ws (0::nat) 0 = Inr []"
    by (simp add: outcome_def sample_scrape_def)
  have o1: "outcome sample_scrape sample_query ?ws (0::nat) 1 = Inl ScraperError"
    by (simp add: outcome_def sample_scrape_def)
  have o2: "outcome sample_scrape sample_query ?ws (0::nat) 2 = Inr [booking_flight]"
    by (simp add: outcome_def sample_scrape_def numeral_2_eq_2)
  have rej: "\<forall>i<2. rejected (outcome sample_scrape sample_query ?ws (0::nat) i)"
    using o0 o1 by (auto simp: rejected_def less_Suc_eq numeral_2_eq_2)
  have st: "state_before sample_scrape sample_query ?ws (Suc 2) (0::nat) = 3"
    by (simp add: sample_scrape_def numeral_2_eq_2 numeral_3_eq_3)
  have "call_arguments sample_search = Some sample_query \<and> (2::nat) < length ?ws \<and>
        (\<forall>i<2. rejected (outcome sample_scrape sample_query ?ws (0::nat) i)) \<and>
        outcome sample_scrape sample_query ?ws (0::nat) 2 = Inr [booking_flight] \<and>
        [booking_flight] \<noteq> []"
    using rej o2 sample_call_arguments by simp
  then have "search_flights sample_scrape sample_config (0::nat) =
               (postprocess sample_config [booking_flight],
                state_before sample_scrape sample_query ?ws (Suc 2) 0, take (Suc 2) ?ws)"
    by (rule first_success_wins [OF sample_config_fields(1) sample_websites_fields
               sample_config_fields(2) sample_search_fields,
               of sample_scrape "0::nat", THEN conjunct1, rule_format])
  moreover have "take (Suc 2) ?ws = ?ws"
    by (simp add: numeral_2_eq_2)
  ultimately have "search_flights sample_scrape sample_config (0::nat) =
               (postprocess sample_config [booking_flight], 3, sample_sites)"
    by (simp only: st ws)
  with o0 o1 o2 show ?thesis
    unfolding ws [symmetric]
    by (intro conjI sample_config_fields sample_websites_fields sample_search_fields
          sample_call_arguments)
qed

section \<open>Validation of the configuration\<close>

lemma required_flight_key_cases:
  "required_flight_key v =
     (if missing_or_empty v then Inl ValueError
      else Inr (case v of Some (Val s) \<Rightarrow> s | _ \<Rightarrow> []))"
proof (cases v)
  case None
  then show ?thesis
    by (simp add: required_flight_key_def missing_or_empty_def)
next
  case (Some x)
  then show ?thesis
    by (cases x) (simp_all add: required_flight_key_def missing_or_empty_def)
qed

lemma validate_config_missing_section:
  assumes "flight_search cfg = None \<or> websites cfg = None \<or>
           search_settings cfg = None \<or> browser_settings cfg = None"
  shows "validate_config strptime cfg = Inl ValueError"
  using assms
  by (cases "flight_search cfg"; cases "websites cfg"; cases "search_settings cfg";
      cases "browser_settings cfg") (simp_all add: validate_config_def)

lemma validate_config_null_flight_search:
  assumes "flight_search cfg = Some Null" "websites cfg = Some wv"
    "search_settings cfg = Some sv" "browser_settings cfg = Some bv"
  shows "validate_config strptime cfg = Inl TypeError"
  using assms by (simp add: validate_config_def container_def)

text \<open>The checks of the flight search, and after them those of the websites.\<close>

lemma validate_config_sections:
  assumes "flight_search cfg = Some (Val f)" "websites cfg = Some wv"
    "search_settings cfg = Some sv" "browser_settings cfg = Some bv"
  shows "validate_config strptime cfg =
          (if flight_search_refused strptime f then Inl ValueError
           else case wv of
                  Null \<Rightarrow> Inl TypeError
                | Val w \<Rightarrow>
                    (case primary w of
                       None \<Rightarrow> Inl ValueError
                     | Some p \<Rightarrow>
                         if p \<in> {Val ''kayak'', Val ''expedia'', Val ''booking''} then Inr ()
                         else Inl ValueError))"
proof -
  let ?websites = "case wv of
                  Null \<Rightarrow> Inl TypeError
                | Val w \<Rightarrow>
                    (case primary w of
                       None \<Rightarrow> Inl ValueError
                     | Some p \<Rightarrow>
                         if p \<in> {Val ''kayak'', Val ''expedia'', Val ''booking''} then Inr ()
                         else Inl ValueError)"
  have w: "(case container wv of
              Inl e \<Rightarrow> Inl e
            | Inr ws \<Rightarrow>
                (case primary ws of
                   None \<Rightarrow> Inl ValueError
                 | Some p \<Rightarrow>
                     if p \<notin> set (map Val supported_websites) then Inl ValueError
                     else Inr ())) = ?websites"
    by (cases wv) (auto simp: container_def supported_websites_def split: option.splits)
  have r: "(case dict_get (return_date f) of Null \<Rightarrow> False
            | Val r \<Rightarrow> r \<noteq> [] \<and> \<not> strptime r) =
           (case return_date f of Some (Val r) \<Rightarrow> r \<noteq> [] \<and> \<not> strptime r | _ \<Rightarrow> False)"
    by (simp add: dict_get_def split: option.splits nullable.splits)
  have "validate_config strptime cfg =
          (if missing_or_empty (source f) then Inl ValueError
           else if missing_or_empty (destination f) then Inl ValueError
           else if missing_or_empty (travel_date f) then Inl ValueError
           else if \<not> strptime (case travel_date f of Some (Val s) \<Rightarrow> s | _ \<Rightarrow> [])
             then Inl ValueError
           else if (case return_date f of Some (Val r) \<Rightarrow> r \<noteq> [] \<and> \<not> strptime r
                    | _ \<Rightarrow> False) then Inl ValueError
           else ?websites)"
    using assms
    by (simp add: validate_config_def container_Val required_flight_key_cases w r)
  also have "\<dots> = (if flight_search_refused strptime f then Inl ValueError else ?websites)"
  proof (cases "missing_or_empty (travel_date f)")
    case True
    then show ?thesis
      by (simp add: flight_search_refused_def)
  next
    case False
    then obtain a where "travel_date f = Some a" "a \<noteq> Null"
      by (cases "travel_date f") (auto simp: missing_or_empty_def)
    then obtain t where "travel_date f = Some (Val t)"
      by (cases a) simp_all
    then show ?thesis
      by (simp add: flight_search_refused_def)
  qed
  finally show ?thesis .
qed

lemma sections_present:
  assumes "\<not> (flight_search cfg = None \<or> websites cfg = None \<or>
              search_settings cfg = None \<or> browser_settings cfg = None)"
  obtains fv wv sv bv where "flight_search cfg = Some fv" "websites cfg = Some wv"
    "search_settings cfg = Some sv" "browser_settings cfg = Some bv"
  using assms
  by (cases "flight_search cfg"; cases "websites cfg"; cases "search_settings cfg";
      cases "browser_settings cfg") simp_all

lemma present_not_empty:
  assumes "\<not> missing_or_empty v"
  obtains s where "v = Some (Val s)"
proof -
  from assms obtain a where "v = Some a" "a \<noteq> Null"
    by (cases v) (auto simp: missing_or_empty_def)
  then show thesis
    by (cases a) (simp_all add: that)
qed


text \<open>What a configuration that passes validation is known to have.\<close>

lemma validate_config_ok_fields:
  assumes "validate_config strptime cfg = Inr ()"
  obtains f s d t where "flight_search cfg = Some (Val f)" "source f = Some (Val s)"
    "destination f = Some (Val d)" "travel_date f = Some (Val t)"
proof -
  have "\<not> (flight_search cfg = None \<or> websites cfg = None \<or>
           search_settings cfg = None \<or> browser_settings cfg = None)"
  proof
    assume "flight_search cfg = None \<or> websites cfg = None \<or>
           search_settings cfg = None \<or> browser_settings cfg = None"
    then have "validate_config strptime cfg = Inl ValueError"
      by (rule validate_config_missing_section)
    with assms show False
      by simp
  qed
  then obtain fv wv sv bv where s: "flight_search cfg = Some fv" "websites cfg = Some wv"
    "search_settings cfg = Some sv" "browser_settings cfg = Some bv"
    by (rule sections_present)
  from assms s obtain f where f: "fv = Val f"
    by (cases fv) (simp_all add: validate_config_null_flight_search)
  note v = validate_config_sections [OF s(1) [unfolded f] s(2-4), of strptime]
  from assms have "\<not> flight_search_refused strptime f"
    by (auto simp: v)
  then have "\<not> missing_or_empty (source f)" "\<not> missing_or_empty (destination f)"
     "\<not> missing_or_empty (travel_date f)"
    by (simp_all add: flight_search_refused_def)
  then obtain a b c where "source f = Some (Val a)" "destination f = Some (Val b)"
    "travel_date f = Some (Val c)"
    by (elim present_not_empty)
  with s f show thesis
    by (intro that) simp_all
qed


lemma sample_strptime_date: "sample_strptime ''2024-06-15''"
  by (simp add: sample_strptime_def is_digit_def)


lemma sample_search_accepted: "\<not> flight_search_refused sample_strptime sample_search"
  by (simp add: flight_search_refused_def sample_search_def missing_or_empty_def
        sample_strptime_date)

lemma validate_sample_search:
  assumes "flight_search cfg = Some (Val f)" "\<not> flight_search_refused sample_strptime f"
    "websites cfg = Some (Val sample_websites)"
    "search_settings cfg = Some sv" "browser_settings cfg = Some bv"
  shows "validate_config sample_strptime cfg = Inr ()"
  by (simp add: validate_config_sections [OF assms(1,3,4,5)] assms(2) sample_websites_def)

lemma sample_config_valid: "validate_config sample_strptime sample_config = Inr ()"
  by (rule validate_sample_search [OF _ sample_search_accepted])
     (simp_all add: sample_config_def)

text \<open>
  A section that is \<open>null\<close> is there: without browser settings or search settings the
  configuration passes validation, and a flight search that is \<open>null\<close> fails the test
  \<open>key not in flight_search\<close> with a \<open>TypeError\<close>.
\<close>

lemma null_sections_validated:
  "validate_config sample_strptime
     (sample_config\<lparr>search_settings := Some Null, browser_settings := Some Null\<rparr>) = Inr ()"
  "validate_config sample_strptime (sample_config\<lparr>flight_search := Some Null\<rparr>) =
     Inl TypeError"
proof -
  show "validate_config sample_strptime
     (sample_config\<lparr>search_settings := Some Null, browser_settings := Some Null\<rparr>) = Inr ()"
    by (rule validate_sample_search [OF _ sample_search_accepted])
       (simp_all add: sample_config_def)
  show "validate_config sample_strptime (sample_config\<lparr>flight_search := Some Null\<rparr>) =
     Inl TypeError"
    by (rule validate_config_null_flight_search) (simp_all add: sample_config_def)
qed





section \<open>Sorting and truncating the result\<close>

lemma PInf_le: "PInf \<le> x \<longleftrightarrow> x = PInf"
  by (cases x) simp_all

lemma sort_key_facts:
  fixes key :: "'a \<Rightarrow> 'k::linorder"
  shows "mset (sort_key key xs) = mset xs"
    and "sorted (map key (sort_key key xs))"
    and "filter (\<lambda>x. key x = v) (sort_key key xs) = filter (\<lambda>x. key x = v) xs"
    and "length (sort_key key xs) = length xs"
  by (simp_all add: sort_key_stable)

lemma sort_key_nth_mono:
  fixes key :: "'a \<Rightarrow> 'k::linorder"
  assumes "i \<le> j" "j < length xs"
  shows "key (sort_key key xs ! i) \<le> key (sort_key key xs ! j)"
proof -
  have "map key (sort_key key xs) ! i \<le> map key (sort_key key xs) ! j"
    using assms by (intro sorted_nth_mono sort_key_facts) (simp_all add: sort_key_facts)
  with assms show ?thesis
    by (simp add: sort_key_facts)
qed

text \<open>
  Sorting by a key that is a numeric field, the sentinel when the field is missing, in
  terms of the field.
\<close>

lemma numeric_key_facts:
  fixes field :: "'a \<Rightarrow> number option" and key :: "'a \<Rightarrow> number"
  assumes key: "\<And>x. key x = (case field x of None \<Rightarrow> PInf | Some n \<Rightarrow> n)"
  shows "mset (sort_key key xs) = mset xs"
    and "\<forall>i j a b. i < j \<and> j < length xs \<and> field (sort_key key xs ! i) = Some (Fin a) \<and>
           field (sort_key key xs ! j) = Some (Fin b) \<longrightarrow> a \<le> b"
    and "\<forall>i j. i < length xs \<and> j < length xs \<and> sentinel (field (sort_key key xs ! i)) \<and>
           \<not> sentinel (field (sort_key key xs ! j)) \<longrightarrow> j < i"
    and "\<forall>a. filter (\<lambda>x. field x = Some (Fin a)) (sort_key key xs) =
             filter (\<lambda>x. field x = Some (Fin a)) xs"
    and "filter (\<lambda>x. sentinel (field x)) (sort_key key xs) =
           filter (\<lambda>x. sentinel (field x)) xs"
proof -
  have fin: "field x = Some (Fin a) \<longleftrightarrow> key x = Fin a" for x a
    by (simp add: key split: option.splits)
  have inf: "sentinel (field x) \<longleftrightarrow> key x = PInf" for x
    by (auto simp: key sentinel_def split: option.splits)
  show "mset (sort_key key xs) = mset xs"
    by (rule sort_key_facts)
  show "\<forall>i j a b. i < j \<and> j < length xs \<and> field (sort_key key xs ! i) = Some (Fin a) \<and>
           field (sort_key key xs ! j) = Some (Fin b) \<longrightarrow> a \<le> b"
  proof (intro allI impI)
    fix i j a b
    assume h: "i < j \<and> j < length xs \<and> field (sort_key key xs ! i) = Some (Fin a) \<and>
           field (sort_key key xs ! j) = Some (Fin b)"
    then have "key (sort_key key xs ! i) \<le> key (sort_key key xs ! j)"
      by (intro sort_key_nth_mono) simp_all
    with h show "a \<le> b"
      by (simp add: fin)
  qed
  show "\<forall>i j. i < length xs \<and> j < length xs \<and> sentinel (field (sort_key key xs ! i)) \<and>
           \<not> sentinel (field (sort_key key xs ! j)) \<longrightarrow> j < i"
  proof (intro allI impI)
    fix i j
    assume h: "i < length xs \<and> j < length xs \<and> sentinel (field (sort_key key xs ! i)) \<and>
           \<not> sentinel (field (sort_key key xs ! j))"
    show "j < i"
    proof (rule ccontr)
      assume "\<not> j < i"
      with h have "key (sort_key key xs ! i) \<le> key (sort_key key xs ! j)"
        by (intro sort_key_nth_mono) simp_all
      with h show False
        by (simp add: inf PInf_le)
    qed
  qed
  show "\<forall>a. filter (\<lambda>x. field x = Some (Fin a)) (sort_key key xs) =
             filter (\<lambda>x. field x = Some (Fin a)) xs"
    by (simp only: fin sort_key_facts simp_thms)
  show "filter (\<lambda>x. sentinel (field x)) (sort_key key xs) =
           filter (\<lambda>x. sentinel (field x)) xs"
    by (simp only: inf sort_key_facts)
qed

text \<open>Sorting by the departure time, the empty string when it is missing.\<close>

lemma departure_key_facts:
  "mset (sort_key departure_key xs) = mset xs"
  "\<forall>i j a b. i < j \<and> j < length xs \<and>
     departure_time (sort_key departure_key xs ! i) = Some a \<and>
     departure_time (sort_key departure_key xs ! j) = Some b \<longrightarrow> a \<le> b"
  "\<forall>i j. i < j \<and> j < length xs \<and> departure_time (sort_key departure_key xs ! j) = None \<longrightarrow>
     departure_time (sort_key departure_key xs ! i) = None \<or>
     departure_time (sort_key departure_key xs ! i) = Some []"
  "\<forall>a. a \<noteq> [] \<longrightarrow>
     filter (\<lambda>x. departure_time x = Some a) (sort_key departure_key xs) =
     filter (\<lambda>x. departure_time x = Some a) xs"
  "filter (\<lambda>x. departure_time x = None \<or> departure_time x = Some []) (sort_key departure_key xs) =
     filter (\<lambda>x. departure_time x = None \<or> departure_time x = Some []) xs"
proof -
  have some: "a \<noteq> [] \<Longrightarrow> departure_time x = Some a \<longleftrightarrow> departure_key x = a" for x a
    by (auto simp: departure_key_def split: option.splits)
  have none: "departure_time x = None \<or> departure_time x = Some [] \<longleftrightarrow> departure_key x = []"
    for x
    by (auto simp: departure_key_def split: option.splits)
  show "mset (sort_key departure_key xs) = mset xs"
    by (rule sort_key_facts)
  show "\<forall>i j a b. i < j \<and> j < length xs \<and>
     departure_time (sort_key departure_key xs ! i) = Some a \<and>
     departure_time (sort_key departure_key xs ! j) = Some b \<longrightarrow> a \<le> b"
  proof (intro allI impI)
    fix i j a b
    assume h: "i < j \<and> j < length xs \<and>
     departure_time (sort_key departure_key xs ! i) = Some a \<and>
     departure_time (sort_key departure_key xs ! j) = Some b"
    then have "departure_key (sort_key departure_key xs ! i) \<le>
               departure_key (sort_key departure_key xs ! j)"
      by (intro sort_key_nth_mono) simp_all
    with h show "a \<le> b"
      by (simp add: departure_key_def)
  qed
  show "\<forall>i j. i < j \<and> j < length xs \<and> departure_time (sort_key departure_key xs ! j) = None \<longrightarrow>
     departure_time (sort_key departure_key xs ! i) = None \<or>
     departure_time (sort_key departure_key xs ! i) = Some []"
  proof (intro allI impI)
    fix i j
    assume h: "i < j \<and> j < length xs \<and> departure_time (sort_key departure_key xs ! j) = None"
    then have "departure_key (sort_key departure_key xs ! i) \<le>
               departure_key (sort_key departure_key xs ! j)"
      by (intro sort_key_nth_mono) simp_all
    with h have "departure_key (sort_key departure_key xs ! i) = []"
      by (simp add: departure_key_def)
    then show "departure_time (sort_key departure_key xs ! i) = None \<or>
               departure_time (sort_key departure_key xs ! i) = Some []"
      by (simp only: none)
  qed
  show "\<forall>a. a \<noteq> [] \<longrightarrow>
     filter (\<lambda>x. departure_time x = Some a) (sort_key departure_key xs) =
     filter (\<lambda>x. departure_time x = Some a) xs"
  proof (intro allI impI)
    fix a :: string
    assume "a \<noteq> []"
    then have "(\<lambda>x. departure_time x = Some a) = (\<lambda>x. departure_key x = a)"
      by (intro ext) (rule some)
    then show "filter (\<lambda>x. departure_time x = Some a) (sort_key departure_key xs) =
               filter (\<lambda>x. departure_time x = Some a) xs"
      by (simp only: sort_key_facts)
  qed
  show "filter (\<lambda>x. departure_time x = None \<or> departure_time x = Some [])
          (sort_key departure_key xs) =
        filter (\<lambda>x. departure_time x = None \<or> departure_time x = Some []) xs"
    by (simp only: none sort_key_facts)
qed

lemma sort_flights_simps:
  "sort_flights (Val ''price'') xs = sort_key price_key xs"
  "sort_flights (Val ''duration'') xs = sort_key duration_key xs"
  "sort_flights (Val ''departure_time'') xs = sort_key departure_key xs"
  by (simp_all add: sort_flights_def)

lemma sort_flights_Nil: "sort_flights k [] = []"
  by (simp add: sort_flights_def)

lemma sort_flights_other:
  "k \<noteq> Val ''price'' \<Longrightarrow> k \<noteq> Val ''duration'' \<Longrightarrow> k \<noteq> Val ''departure_time'' \<Longrightarrow>
   sort_flights k xs = xs"
  by (simp add: sort_flights_def)

lemma slice_to_Nil: "slice_to [] m = []"
  by (simp add: slice_to_def split: nullable.splits)

lemma postprocess_settings:
  assumes "search_settings cfg = Some (Val ss)"
  shows "postprocess cfg xs =
           Inr (slice_to
                  (sort_flights (case sort_by ss of None \<Rightarrow> Val ''price'' | Some k \<Rightarrow> k) xs)
                  (case max_results ss of None \<Rightarrow> Val 10 | Some m \<Rightarrow> m))"
  using assms
  by (cases "xs = []")
     (simp_all add: postprocess_def subscript_def attribute_get_def dict_get_default_def
        sort_flights_Nil slice_to_Nil Let_def)

text \<open>
  Claim C4. The price and the duration of a flight are numbers or the sentinel
  \<open>float('inf')\<close>, and a flight without the field counts as carrying the sentinel; the
  departure time is a string, the empty string when it is missing. For each of the three
  sort keys the sorted list is a permutation of the flights; flights with finite prices
  (durations) are in ascending order of the price (duration); every flight whose price
  (duration) is missing or the sentinel comes after every flight whose price (duration) is
  finite; flights with departure times are in ascending order and only flights without
  one or with the empty one come before a flight without one; flights with equal keys,
  among them the flights with the sentinel, keep the order they had. No comparison can
  fail: with the sort key configured, post-processing returns the sorted list, cut to
  \<open>max_results\<close>.
\<close>

theorem sort_flights_stable_sentinel_last:
  fixes xs :: "flight list"
  defines "by_price \<equiv> sort_flights (Val ''price'') xs"
    and "by_duration \<equiv> sort_flights (Val ''duration'') xs"
    and "by_departure \<equiv> sort_flights (Val ''departure_time'') xs"
  shows
   "(mset by_price = mset xs \<and>
     (\<forall>i j a b. i < j \<and> j < length xs \<and> price_numeric (by_price ! i) = Some (Fin a) \<and>
        price_numeric (by_price ! j) = Some (Fin b) \<longrightarrow> a \<le> b) \<and>
     (\<forall>i j. i < length xs \<and> j < length xs \<and> sentinel (price_numeric (by_price ! i)) \<and>
        \<not> sentinel (price_numeric (by_price ! j)) \<longrightarrow> j < i) \<and>
     (\<forall>a. filter (\<lambda>x. price_numeric x = Some (Fin a)) by_price =
          filter (\<lambda>x. price_numeric x = Some (Fin a)) xs) \<and>
     filter (\<lambda>x. sentinel (price_numeric x)) by_price =
       filter (\<lambda>x. sentinel (price_numeric x)) xs) \<and>
    (mset by_duration = mset xs \<and>
     (\<forall>i j a b. i < j \<and> j < length xs \<and> duration_minutes (by_duration ! i) = Some (Fin a) \<and>
        duration_minutes (by_duration ! j) = Some (Fin b) \<longrightarrow> a \<le> b) \<and>
     (\<forall>i j. i < length xs \<and> j < length xs \<and> sentinel (duration_minutes (by_duration ! i)) \<and>
        \<not> sentinel (duration_minutes (by_duration ! j)) \<longrightarrow> j < i) \<and>
     (\<forall>a. filter (\<lambda>x. duration_minutes x = Some (Fin a)) by_duration =
          filter (\<lambda>x. duration_minutes x = Some (Fin a)) xs) \<and>
     filter (\<lambda>x. sentinel (duration_minutes x)) by_duration =
       filter (\<lambda>x. sentinel (duration_minutes x)) xs) \<and>
    (mset by_departure = mset xs \<and>
     (\<forall>i j a b. i < j \<and> j < length xs \<and> departure_time (by_departure ! i) = Some a \<and>
        departure_time (by_departure ! j) = Some b \<longrightarrow> a \<le> b) \<and>
     (\<forall>i j. i < j \<and> j < length xs \<and> departure_time (by_departure ! j) = None \<longrightarrow>
        departure_time (by_departure ! i) = None \<or>
        departure_time (by_departure ! i) = Some []) \<and>
     (\<forall>a. a \<noteq> [] \<longrightarrow>
        filter (\<lambda>x. departure_time x = Some a) by_departure =
        filter (\<lambda>x. departure_time x = Some a) xs) \<and>
     filter (\<lambda>x. departure_time x = None \<or> departure_time x = Some []) by_departure =
       filter (\<lambda>x. departure_time x = None \<or> departure_time x = Some []) xs) \<and>
    (\<forall>cfg ss k. search_settings cfg = Some (Val ss) \<and> sort_by ss = Some (Val k) \<longrightarrow>
       postprocess cfg xs =
         Inr (slice_to (sort_flights (Val k) xs)
                (case max_results ss of None \<Rightarrow> Val 10 | Some m \<Rightarrow> m)))"
proof -
  note price = numeric_key_facts [of price_key price_numeric xs, OF price_key_def]
  note duration = numeric_key_facts [of duration_key duration_minutes xs, OF duration_key_def]
  note departure = departure_key_facts [of xs]
  have post: "\<forall>cfg ss k. search_settings cfg = Some (Val ss) \<and> sort_by ss = Some (Val k) \<longrightarrow>
       postprocess cfg xs =
         Inr (slice_to (sort_flights (Val k) xs)
                (case max_results ss of None \<Rightarrow> Val 10 | Some m \<Rightarrow> m))"
    by (simp add: postprocess_settings)
  show ?thesis
    unfolding by_price_def by_duration_def by_departure_def sort_flights_simps
    by (intro conjI price duration departure post)
qed

lemma five_flights_prices:
  "price_numeric flight_unpriced = None" "price_numeric flight_500 = Some (Fin 500)"
  "price_numeric flight_200 = Some (Fin 200)" "price_numeric flight_500_late = Some (Fin 500)"
  "price_numeric flight_unknown = Some PInf"
  by (simp_all add: flight_unpriced_def flight_500_def flight_200_def flight_500_late_def
        flight_unknown_def)

lemma five_flights_durations:
  "duration_minutes flight_unpriced = Some (Fin 100)" "duration_minutes flight_500 = Some PInf"
  "duration_minutes flight_200 = Some (Fin 90)"
  "duration_minutes flight_500_late = Some (Fin 100)" "duration_minutes flight_unknown = None"
  by (simp_all add: flight_unpriced_def flight_500_def flight_200_def flight_500_late_def
        flight_unknown_def)

lemma five_flights_departures:
  "departure_time flight_unpriced = Some ''09:00''" "departure_time flight_500 = Some ''07:30''"
  "departure_time flight_200 = Some ''21:15''" "departure_time flight_500_late = Some ''07:30''"
  "departure_time flight_unknown = None"
  by (simp_all add: flight_unpriced_def flight_500_def flight_200_def flight_500_late_def
        flight_unknown_def)

lemma sort_five_flights:
  "sort_flights (Val ''price'') five_flights =
     [flight_200, flight_500, flight_500_late, flight_unpriced, flight_unknown]"
  "sort_flights (Val ''duration'') five_flights =
     [flight_200, flight_unpriced, flight_500_late, flight_500, flight_unknown]"
  "sort_flights (Val ''departure_time'') five_flights =
     [flight_unknown, flight_500, flight_500_late, flight_unpriced, flight_200]"
  by (simp_all add: sort_flights_def five_flights_def price_key_def duration_key_def
        departure_key_def five_flights_prices five_flights_durations five_flights_departures)

lemma equal_keys_of_five_flights:
  "filter (\<lambda>x. price_numeric x = Some (Fin 500)) five_flights = [flight_500, flight_500_late]"
  "filter (\<lambda>x. sentinel (price_numeric x)) five_flights = [flight_unpriced, flight_unknown]"
  "filter (\<lambda>x. duration_minutes x = Some (Fin 100)) five_flights =
     [flight_unpriced, flight_500_late]"
  "filter (\<lambda>x. sentinel (duration_minutes x)) five_flights = [flight_500, flight_unknown]"
  "filter (\<lambda>x. departure_time x = Some ''07:30'') five_flights = [flight_500, flight_500_late]"
  by (simp_all add: five_flights_def sentinel_def five_flights_prices five_flights_durations
        five_flights_departures)

theorem sort_flights_stable_sentinel_last_witness:
  "sort_flights (Val ''price'') five_flights =
     [flight_200, flight_500, flight_500_late, flight_unpriced, flight_unknown] \<and>
   sort_flights (Val ''duration'') five_flights =
     [flight_200, flight_unpriced, flight_500_late, flight_500, flight_unknown] \<and>
   sort_flights (Val ''departure_time'') five_flights =
     [flight_unknown, flight_500, flight_500_late, flight_unpriced, flight_200] \<and>
   filter (\<lambda>x. price_numeric x = Some (Fin 500)) (sort_flights (Val ''price'') five_flights) =
     filter (\<lambda>x. price_numeric x = Some (Fin 500)) five_flights \<and>
   filter (\<lambda>x. price_numeric x = Some (Fin 500)) five_flights = [flight_500, flight_500_late] \<and>
   filter (\<lambda>x. sentinel (price_numeric x)) (sort_flights (Val ''price'') five_flights) =
     filter (\<lambda>x. sentinel (price_numeric x)) five_flights \<and>
   filter (\<lambda>x. sentinel (price_numeric x)) five_flights = [flight_unpriced, flight_unknown] \<and>
   filter (\<lambda>x. duration_minutes x = Some (Fin 100))
     (sort_flights (Val ''duration'') five_flights) =
     filter (\<lambda>x. duration_minutes x = Some (Fin 100)) five_flights \<and>
   filter (\<lambda>x. duration_minutes x = Some (Fin 100)) five_flights =
     [flight_unpriced, flight_500_late] \<and>
   filter (\<lambda>x. sentinel (duration_minutes x)) (sort_flights (Val ''duration'') five_flights) =
     filter (\<lambda>x. sentinel (duration_minutes x)) five_flights \<and>
   filter (\<lambda>x. sentinel (duration_minutes x)) five_flights = [flight_500, flight_unknown] \<and>
   ''07:30'' \<noteq> [] \<and>
   filter (\<lambda>x. departure_time x = Some ''07:30'')
     (sort_flights (Val ''departure_time'') five_flights) =
     filter (\<lambda>x. departure_time x = Some ''07:30'') five_flights \<and>
   filter (\<lambda>x. departure_time x = Some ''07:30'') five_flights =
     [flight_500, flight_500_late] \<and>
   (3::nat) < length five_flights \<and> (2::nat) < length five_flights \<and>
   sentinel (price_numeric (sort_flights (Val ''price'') five_flights ! 3)) \<and>
   \<not> sentinel (price_numeric (sort_flights (Val ''price'') five_flights ! 2)) \<and>
   (2::nat) < 3 \<and>
   sentinel (duration_minutes (sort_flights (Val ''duration'') five_flights ! 3)) \<and>
   \<not> sentinel (duration_minutes (sort_flights (Val ''duration'') five_flights ! 2)) \<and>
   search_settings sample_config = Some (Val sample_settings) \<and>
   sort_by sample_settings = Some (Val ''price'') \<and>
   postprocess sample_config five_flights =
     Inr (slice_to (sort_flights (Val ''price'') five_flights)
            (case max_results sample_settings of None \<Rightarrow> Val 10 | Some m \<Rightarrow> m))"
proof -
  note t = sort_flights_stable_sentinel_last [of five_flights]
  note p = t [THEN conjunct1]
  note d = t [THEN conjunct2, THEN conjunct1]
  note s = t [THEN conjunct2, THEN conjunct2, THEN conjunct1]
  have n: "''07:30'' \<noteq> []"
    by simp
  have p4: "filter (\<lambda>x. price_numeric x = Some (Fin 500))
              (sort_flights (Val ''price'') five_flights) =
            filter (\<lambda>x. price_numeric x = Some (Fin 500)) five_flights"
    by (rule p [THEN conjunct2, THEN conjunct2, THEN conjunct2, THEN conjunct1, THEN spec])
  have p5: "filter (\<lambda>x. sentinel (price_numeric x)) (sort_flights (Val ''price'') five_flights) =
            filter (\<lambda>x. sentinel (price_numeric x)) five_flights"
    by (rule p [THEN conjunct2, THEN conjunct2, THEN conjunct2, THEN conjunct2])
  have d4: "filter (\<lambda>x. duration_minutes x = Some (Fin 100))
              (sort_flights (Val ''duration'') five_flights) =
            filter (\<lambda>x. duration_minutes x = Some (Fin 100)) five_flights"
    by (rule d [THEN conjunct2, THEN conjunct2, THEN conjunct2, THEN conjunct1, THEN spec])
  have d5: "filter (\<lambda>x. sentinel (duration_minutes x))
              (sort_flights (Val ''duration'') five_flights) =
            filter (\<lambda>x. sentinel (duration_minutes x)) five_flights"
    by (rule d [THEN conjunct2, THEN conjunct2, THEN conjunct2, THEN conjunct2])
  have s4: "filter (\<lambda>x. departure_time x = Some ''07:30'')
              (sort_flights (Val ''departure_time'') five_flights) =
            filter (\<lambda>x. departure_time x = Some ''07:30'') five_flights"
    using n
    by (rule s [THEN conjunct2, THEN conjunct2, THEN conjunct2, THEN conjunct1, THEN spec,
                THEN mp])
  have l: "(3::nat) < length five_flights" "(2::nat) < length five_flights"
    by (simp_all add: five_flights_def)
  have sp: "sentinel (price_numeric (sort_flights (Val ''price'') five_flights ! 3))"
    "\<not> sentinel (price_numeric (sort_flights (Val ''price'') five_flights ! 2))"
    by (simp_all add: sort_five_flights sentinel_def five_flights_prices numeral_3_eq_3
          numeral_2_eq_2)
  have sd: "sentinel (duration_minutes (sort_flights (Val ''duration'') five_flights ! 3))"
    "\<not> sentinel (duration_minutes (sort_flights (Val ''duration'') five_flights ! 2))"
    by (simp_all add: sort_five_flights sentinel_def five_flights_durations numeral_3_eq_3
          numeral_2_eq_2)
  have "(3::nat) < length five_flights \<and> (2::nat) < length five_flights \<and>
        sentinel (price_numeric (sort_flights (Val ''price'') five_flights ! 3)) \<and>
        \<not> sentinel (price_numeric (sort_flights (Val ''price'') five_flights ! 2))"
    using l sp by (intro conjI)
  then have p3: "(2::nat) < 3"
    by (rule p [THEN conjunct2, THEN conjunct2, THEN conjunct1, THEN spec, THEN spec, THEN mp])
  have c: "search_settings sample_config = Some (Val sample_settings)"
    "sort_by sample_settings = Some (Val ''price'')"
    by (simp_all add: sample_config_def sample_settings_def)
  then have "search_settings sample_config = Some (Val sample_settings) \<and>
             sort_by sample_settings = Some (Val ''price'')"
    by (intro conjI)
  then have post: "postprocess sample_config five_flights =
     Inr (slice_to (sort_flights (Val ''price'') five_flights)
            (case max_results sample_settings of None \<Rightarrow> Val 10 | Some m \<Rightarrow> m))"
    by (rule t [THEN conjunct2, THEN conjunct2, THEN conjunct2, THEN spec, THEN spec, THEN spec,
                THEN mp])
  from sort_five_flights p4 p5 d4 d5 n s4 l sp p3 sd c post equal_keys_of_five_flights
  show ?thesis
    by (intro conjI)
qed

lemma length_slice_to: "0 \<le> m \<Longrightarrow> int (length (slice_to xs (Val m))) \<le> m"
  by (simp add: slice_to_def)

lemma slice_to_nonneg: "0 \<le> m \<Longrightarrow> slice_to xs (Val m) = take (nat m) xs"
  by (simp add: slice_to_def)

lemma slice_to_Null: "slice_to xs Null = xs"
  by (simp add: slice_to_def)

lemma search_flights_validated:
  assumes "validate_config strptime cfg = Inr ()"
    and "websites cfg = Some (Val w)" "primary w = Some p" "fallback w = Some (Val fb)"
    and "try_websites scrape cfg (p # fb) (st, []) = (fs, st', called)"
  shows "search_flights scrape cfg st = (postprocess cfg fs, st', called)"
proof -
  from assms(1) obtain f s d t where "flight_search cfg = Some (Val f)"
    "source f = Some (Val s)" "destination f = Some (Val d)" "travel_date f = Some (Val t)"
    by (rule validate_config_ok_fields)
  then show ?thesis
    using websites_to_try_fields [OF assms(2-4)] assms(5) by (rule search_flights_unfold)
qed

text \<open>
  Claim C5, for a cap that is a number and not negative. For a validated configuration
  with a fallback list, whatever the websites return, the search returns a list; when
  \<open>max_results\<close>, 10 when the setting is absent, is an integer that is at least 0, the
  list is no longer than that, and it is the accepted list, sorted, cut once to its first
  \<open>max_results\<close> flights.
\<close>

theorem result_length_capped:
  assumes "validate_config strptime cfg = Inr ()"
    and "websites cfg = Some (Val w)" and "primary w = Some p"
    and "fallback w = Some (Val fb)"
    and "search_settings cfg = Some (Val ss)"
    and "try_websites scrape cfg (p # fb) (st, []) = (accepted, st', called)"
    and "max_results ss = None \<and> m = 10 \<or> max_results ss = Some (Val m)"
    and "0 \<le> m"
  shows "\<exists>result.
           search_flights scrape cfg st = (Inr result, st', called) \<and>
           int (length result) \<le> m \<and>
           result = take (nat m)
                      (sort_flights (case sort_by ss of None \<Rightarrow> Val ''price'' | Some k \<Rightarrow> k)
                         accepted)"
proof -
  let ?k = "case sort_by ss of None \<Rightarrow> Val ''price'' | Some k \<Rightarrow> k"
  have m: "(case max_results ss of None \<Rightarrow> Val 10 | Some v \<Rightarrow> v) = Val m"
    using assms(7) by auto
  have "search_flights scrape cfg st = (postprocess cfg accepted, st', called)"
    using assms(1-4,6) by (rule search_flights_validated)
  then have "search_flights scrape cfg st =
               (Inr (slice_to (sort_flights ?k accepted) (Val m)), st', called)"
    by (simp only: postprocess_settings [OF assms(5)] m)
  moreover have "int (length (slice_to (sort_flights ?k accepted) (Val m))) \<le> m"
    using assms(8) by (rule length_slice_to)
  moreover have "slice_to (sort_flights ?k accepted) (Val m) =
                   take (nat m) (sort_flights ?k accepted)"
    using assms(8) by (rule slice_to_nonneg)
  ultimately show ?thesis
    by simp
qed

text \<open>
  Claim C9. When \<open>sort_by\<close> is set to a value other than \<open>price\<close>,
  \<open>duration\<close> and \<open>departure_time\<close>, \<open>null\<close> being such a value, the search does
  not sort: it returns the accepted list in the order the scraper produced it, cut by
  the slice \<open>[:max_results]\<close>. For a cap that is not negative, 10 when the setting is
  absent, the slice keeps the first \<open>max_results\<close> flights, and for the cap \<open>null\<close>
  it keeps them all.
\<close>

theorem unknown_sort_key_keeps_order:
  assumes "validate_config strptime cfg = Inr ()"
    and "websites cfg = Some (Val w)" and "primary w = Some p"
    and "fallback w = Some (Val fb)"
    and "search_settings cfg = Some (Val ss)" and "sort_by ss = Some k"
    and "k \<noteq> Val ''price''" and "k \<noteq> Val ''duration''" and "k \<noteq> Val ''departure_time''"
    and "try_websites scrape cfg (p # fb) (st, []) = (accepted, st', called)"
  shows "search_flights scrape cfg st =
           (Inr (slice_to accepted (case max_results ss of None \<Rightarrow> Val 10 | Some m \<Rightarrow> m)),
            st', called) \<and>
         (\<forall>m. (max_results ss = None \<and> m = 10 \<or> max_results ss = Some (Val m)) \<and> 0 \<le> m \<longrightarrow>
              search_flights scrape cfg st = (Inr (take (nat m) accepted), st', called)) \<and>
         (max_results ss = Some Null \<longrightarrow>
              search_flights scrape cfg st = (Inr accepted, st', called))"
proof -
  let ?m = "case max_results ss of None \<Rightarrow> Val 10 | Some m \<Rightarrow> m"
  have "search_flights scrape cfg st = (postprocess cfg accepted, st', called)"
    using assms(1-4,10) by (rule search_flights_validated)
  moreover have "sort_flights k accepted = accepted"
    using assms(7-9) by (rule sort_flights_other)
  ultimately have 1: "search_flights scrape cfg st = (Inr (slice_to accepted ?m), st', called)"
    by (simp add: postprocess_settings [OF assms(5)] assms(6))
  have 2: "search_flights scrape cfg st = (Inr (take (nat m) accepted), st', called)"
    if "(max_results ss = None \<and> m = 10 \<or> max_results ss = Some (Val m)) \<and> 0 \<le> m" for m
  proof -
    from that have "?m = Val m" "0 \<le> m"
      by auto
    then show ?thesis
      by (simp add: 1 slice_to_nonneg)
  qed
  have 3: "search_flights scrape cfg st = (Inr accepted, st', called)"
    if "max_results ss = Some Null"
    using that by (simp add: 1 slice_to_Null)
  from 1 2 3 show ?thesis
    by (intro conjI allI impI)
qed
text \<open>The sample configuration with other search settings, and a scraper with three flights.\<close>

lemma with_settings_fields:
  "flight_search (with_settings ss) = Some (Val sample_search)"
  "websites (with_settings ss) = Some (Val sample_websites)"
  "search_settings (with_settings ss) = Some (Val ss)"
  "browser_settings (with_settings ss) = Some (Val ())"
  by (simp_all add: with_settings_def sample_config_def)

lemma with_settings_valid: "validate_config sample_strptime (with_settings ss) = Inr ()"
  using with_settings_fields(1) sample_search_accepted with_settings_fields(2-4)
  by (rule validate_sample_search)

lemma with_settings_args: "search_args (with_settings ss) = Inr sample_query"
  by (rule search_args_call_arguments(1) [OF with_settings_fields(1) sample_call_arguments])

lemma try_scrape_three:
  "search_args cfg = Inr q \<Longrightarrow>
   try_websites scrape_three cfg (w # ws) (0::nat, []) = (three_flights, 1, [w])"
  by (simp add: scrape_three_def three_flights_def)

lemma sort_three_flights:
  "sort_flights (Val ''price'') three_flights = [flight_200, flight_500, flight_unpriced]"
  by (simp add: sort_flights_def three_flights_def price_key_def five_flights_prices)

theorem result_length_capped_witness:
  "validate_config sample_strptime sample_config = Inr () \<and>
   websites sample_config = Some (Val sample_websites) \<and>
   primary sample_websites = Some (Val ''kayak'') \<and>
   fallback sample_websites = Some (Val [Val ''expedia'', Val ''booking'']) \<and>
   search_settings sample_config = Some (Val sample_settings) \<and>
   try_websites scrape_three sample_config (Val ''kayak'' # [Val ''expedia'', Val ''booking''])
     (0::nat, []) = (three_flights, 1, [Val ''kayak'']) \<and>
   max_results sample_settings = Some (Val 2) \<and> (0::int) \<le> 2 \<and>
   (\<exists>result.
      search_flights scrape_three sample_config (0::nat) = (Inr result, 1, [Val ''kayak'']) \<and>
      int (length result) \<le> 2 \<and>
      result = take (nat 2)
                 (sort_flights
                    (case sort_by sample_settings of None \<Rightarrow> Val ''price'' | Some k \<Rightarrow> k)
                    three_flights)) \<and>
   take (nat 2)
     (sort_flights (case sort_by sample_settings of None \<Rightarrow> Val ''price'' | Some k \<Rightarrow> k)
        three_flights) = [flight_200, flight_500]"
proof -
  have t: "try_websites scrape_three sample_config
             (Val ''kayak'' # [Val ''expedia'', Val ''booking'']) (0::nat, []) =
             (three_flights, 1, [Val ''kayak''])"
    using sample_search_args by (rule try_scrape_three)
  have m: "max_results sample_settings = Some (Val 2)"
    by (simp add: sample_settings_def)
  then have m': "max_results sample_settings = None \<and> (2::int) = 10 \<or>
                 max_results sample_settings = Some (Val 2)"
    by (rule disjI2)
  have c: "(0::int) \<le> 2"
    by simp
  have r: "take (nat 2)
     (sort_flights (case sort_by sample_settings of None \<Rightarrow> Val ''price'' | Some k \<Rightarrow> k)
        three_flights) = [flight_200, flight_500]"
    by (simp add: sample_settings_def sort_three_flights numeral_2_eq_2)
  from result_length_capped [OF sample_config_valid sample_config_fields(1)
         sample_websites_fields sample_config_fields(3) t m' c]
       sample_config_valid sample_config_fields(1) sample_websites_fields
       sample_config_fields(3) t m c r
  show ?thesis
    by (intro conjI)
qed

text \<open>
  Claim C5 as it is written, for every value of \<open>max_results\<close>, fails for a negative
  one: with \<open>max_results = -1\<close> the slice drops the last of three flights and the
  search returns two, more than the cap.
\<close>

theorem negative_cap_exceeded:
  "search_settings negative_cap_config =
     Some (Val (sample_settings\<lparr>max_results := Some (Val (- 1))\<rparr>)) \<and>
   max_results (sample_settings\<lparr>max_results := Some (Val (- 1))\<rparr>) = Some (Val (- 1)) \<and>
   validate_config sample_strptime negative_cap_config = Inr () \<and>
   search_flights scrape_three negative_cap_config (0::nat) =
     (Inr [flight_200, flight_500], 1, [Val ''kayak'']) \<and>
   \<not> int (length [flight_200, flight_500]) \<le> - 1"
proof -
  let ?ss = "sample_settings\<lparr>max_results := Some (Val (- 1))\<rparr>"
  have c: "negative_cap_config = with_settings ?ss"
    by (simp add: negative_cap_config_def)
  have t: "try_websites scrape_three (with_settings ?ss)
             (Val ''kayak'' # [Val ''expedia'', Val ''booking'']) (0::nat, []) =
             (three_flights, 1, [Val ''kayak''])"
    using with_settings_args by (rule try_scrape_three)
  have "search_flights scrape_three (with_settings ?ss) (0::nat) =
          (postprocess (with_settings ?ss) three_flights, 1, [Val ''kayak''])"
    using with_settings_valid with_settings_fields(2) sample_websites_fields t
    by (rule search_flights_validated)
  moreover have "postprocess (with_settings ?ss) three_flights =
                   Inr (slice_to (sort_flights (Val ''price'') three_flights) (Val (- 1)))"
    by (simp add: postprocess_settings [OF with_settings_fields(3)] sample_settings_def)
  moreover have "slice_to (sort_flights (Val ''price'') three_flights) (Val (- 1)) =
                   [flight_200, flight_500]"
    by (simp add: sort_three_flights slice_to_def)
  ultimately have "search_flights scrape_three (with_settings ?ss) (0::nat) =
                     (Inr [flight_200, flight_500], 1, [Val ''kayak''])"
    by simp
  then show ?thesis
    by (simp add: c with_settings_fields with_settings_valid)
qed

text \<open>
  With \<open>max_results\<close> set to \<open>null\<close> the slice is \<open>[:None]\<close> and the search returns
  every flight of the accepted list.
\<close>

lemma null_cap_returns_all:
  "search_flights scrape_three (with_settings (sample_settings\<lparr>max_results := Some Null\<rparr>))
     (0::nat) = (Inr [flight_200, flight_500, flight_unpriced], 1, [Val ''kayak''])"
proof -
  let ?ss = "sample_settings\<lparr>max_results := Some Null\<rparr>"
  have t: "try_websites scrape_three (with_settings ?ss)
             (Val ''kayak'' # [Val ''expedia'', Val ''booking'']) (0::nat, []) =
             (three_flights, 1, [Val ''kayak''])"
    using with_settings_args by (rule try_scrape_three)
  have "search_flights scrape_three (with_settings ?ss) (0::nat) =
          (postprocess (with_settings ?ss) three_flights, 1, [Val ''kayak''])"
    using with_settings_valid with_settings_fields(2) sample_websites_fields t
    by (rule search_flights_validated)
  moreover have "postprocess (with_settings ?ss) three_flights =
                   Inr (slice_to (sort_flights (Val ''price'') three_flights) Null)"
    by (simp add: postprocess_settings [OF with_settings_fields(3)] sample_settings_def)
  ultimately show ?thesis
    by (simp add: sort_three_flights slice_to_Null)
qed

theorem unknown_sort_key_keeps_order_witness:
  "validate_config sample_strptime unsorted_config = Inr () \<and>
   search_settings unsorted_config =
     Some (Val (sample_settings\<lparr>sort_by := Some (Val ''airline'')\<rparr>)) \<and>
   Val ''airline'' \<noteq> Val ''price'' \<and> Val ''airline'' \<noteq> Val ''duration'' \<and>
   Val ''airline'' \<noteq> Val ''departure_time'' \<and>
   search_flights scrape_three unsorted_config (0::nat) =
     (Inr [flight_unpriced, flight_500], 1, [Val ''kayak'']) \<and>
   validate_config sample_strptime null_sort_config = Inr () \<and>
   search_settings null_sort_config = Some (Val (sample_settings\<lparr>sort_by := Some Null\<rparr>)) \<and>
   search_flights scrape_three null_sort_config (0::nat) =
     (Inr [flight_unpriced, flight_500], 1, [Val ''kayak''])"
proof -
  have r: "take (nat 2) three_flights = [flight_unpriced, flight_500]"
    by (simp add: three_flights_def numeral_2_eq_2)
  have result: "search_flights scrape_three (with_settings (sample_settings\<lparr>sort_by := Some k\<rparr>))
                  (0::nat) = (Inr [flight_unpriced, flight_500], 1, [Val ''kayak''])"
    if k: "k \<noteq> Val ''price''" "k \<noteq> Val ''duration''" "k \<noteq> Val ''departure_time''" for k
  proof -
    let ?ss = "sample_settings\<lparr>sort_by := Some k\<rparr>"
    have t: "try_websites scrape_three (with_settings ?ss)
               (Val ''kayak'' # [Val ''expedia'', Val ''booking'']) (0::nat, []) =
               (three_flights, 1, [Val ''kayak''])"
      using with_settings_args by (rule try_scrape_three)
    have s: "sort_by ?ss = Some k"
      by simp
    have "(max_results ?ss = None \<and> (2::int) = 10 \<or> max_results ?ss = Some (Val 2)) \<and>
          (0::int) \<le> 2"
      by (simp add: sample_settings_def)
    then have "search_flights scrape_three (with_settings ?ss) (0::nat) =
                 (Inr (take (nat 2) three_flights), 1, [Val ''kayak''])"
      by (rule unknown_sort_key_keeps_order [OF with_settings_valid with_settings_fields(2)
                 sample_websites_fields with_settings_fields(3) s k t,
                 THEN conjunct2, THEN conjunct1, THEN spec, THEN mp])
    then show ?thesis
      by (simp only: r)
  qed
  have n: "Val ''airline'' \<noteq> Val ''price''" "Val ''airline'' \<noteq> Val ''duration''"
    "Val ''airline'' \<noteq> Val ''departure_time''"
    by simp_all
  have "search_flights scrape_three unsorted_config (0::nat) =
          (Inr [flight_unpriced, flight_500], 1, [Val ''kayak''])"
    unfolding unsorted_config_def using n by (rule result)
  moreover have "search_flights scrape_three null_sort_config (0::nat) =
          (Inr [flight_unpriced, flight_500], 1, [Val ''kayak''])"
    unfolding null_sort_config_def by (rule result) simp_all
  moreover have "validate_config sample_strptime unsorted_config = Inr ()"
    "validate_config sample_strptime null_sort_config = Inr ()"
    "search_settings unsorted_config =
       Some (Val (sample_settings\<lparr>sort_by := Some (Val ''airline'')\<rparr>))"
    "search_settings null_sort_config = Some (Val (sample_settings\<lparr>sort_by := Some Null\<rparr>))"
    by (simp_all add: unsorted_config_def null_sort_config_def with_settings_valid
          with_settings_fields)
  ultimately show ?thesis
    using n by (intro conjI)
qed

section \<open>The demo scraper\<close>

lemma randint_bounds:
  assumes "a \<le> b"
  shows "a \<le> fst (randint a b g)" and "fst (randint a b g) \<le> b"
proof -
  have "0 < nat (b - a + 1)"
    using assms by simp
  then have "g 0 mod nat (b - a + 1) < nat (b - a + 1)"
    by (rule mod_less_divisor)
  then have "int (g 0 mod nat (b - a + 1)) < b - a + 1"
    using assms by linarith
  then show "a \<le> fst (randint a b g)" and "fst (randint a b g) \<le> b"
    by (simp_all add: randint_def randbelow_def)
qed

lemma generate_flight_fields:
  assumes "generate_flight strptime_hm src dst date g = (Inr f, g')"
  obtains g3 p where
    "duration_minutes f =
       Some (Fin (fst (randint (fst (duration_range src dst))
                               (snd (duration_range src dst)) g3)))"
    "price_numeric f = Some (Fin p)"
proof -
  obtain name lo hi g1 where 1: "choice airlines g = ((name, lo, hi), g1)"
    by (metis surj_pair)
  obtain bp g2 where 2: "randint lo hi g1 = (bp, g2)"
    by (metis surj_pair)
  obtain j g3 where 3: "randint (- 50) 100 g2 = (j, g3)"
    by (metis surj_pair)
  obtain dlo dhi where 4: "duration_range src dst = (dlo, dhi)"
    by (metis surj_pair)
  obtain m g4 where 5: "randint dlo dhi g3 = (m, g4)"
    by (metis surj_pair)
  obtain h g5 where 6: "randint 6 22 g4 = (h, g5)"
    by (metis surj_pair)
  obtain mi g6 where 7: "choice [0, 15, 30, 45 :: int] g5 = (mi, g6)"
    by (metis surj_pair)
  obtain stop g7 where 8: "choices_stops g6 = (stop, g7)"
    by (metis surj_pair)
  obtain d1 g8 where 9: "randint 50 150 g7 = (d1, g8)"
    by (metis surj_pair)
  obtain d2 g9 where 10: "randint 30 100 g7 = (d2, g9)"
    by (metis surj_pair)
  let ?p = "if stop = ''Nonstop'' then bp + j + d1
            else if stop = ''2 stops'' then bp + j - d2 else bp + j"
  from assms have "duration_minutes f = Some (Fin m) \<and> price_numeric f = Some (Fin ?p)"
    unfolding generate_flight_def 1 2 3 4 5 6 7 8 9 10 Let_def prod.case
    by (auto split: option.splits if_splits)
  moreover have "m = fst (randint (fst (duration_range src dst))
                               (snd (duration_range src dst)) g3)"
    by (simp add: 4 5)
  ultimately show thesis
    by (intro that [of g3 ?p]) simp_all
qed

lemma duration_range_table:
  assumes "((upper src, upper dst), lo, hi) \<in> set flight_durations \<or>
           ((upper dst, upper src), lo, hi) \<in> set flight_durations"
  shows "duration_range src dst = (lo, hi)"
  using assms
  by (auto simp: duration_range_def flight_durations_def)

lemma duration_range_default:
  assumes "(upper src, upper dst) \<notin> fst ` set flight_durations"
    and "(upper dst, upper src) \<notin> fst ` set flight_durations"
  shows "duration_range src dst = (120, 480)"
proof -
  have "map_of flight_durations (upper src, upper dst) = None"
       "map_of flight_durations (upper dst, upper src) = None"
    using assms by (simp_all add: map_of_eq_None_iff)
  then show ?thesis
    by (simp add: duration_range_def)
qed

lemma flight_durations_ordered: "(k, lo, hi) \<in> set flight_durations \<Longrightarrow> lo \<le> hi"
  by (auto simp: flight_durations_def)

lemma duration_range_ordered: "fst (duration_range src dst) \<le> snd (duration_range src dst)"
proof (cases "map_of flight_durations (upper src, upper dst)")
  case (Some r)
  then have "((upper src, upper dst), fst r, snd r) \<in> set flight_durations"
    by (simp add: map_of_SomeD)
  then have "fst r \<le> snd r"
    by (rule flight_durations_ordered)
  with Some show ?thesis
    by (simp add: duration_range_def)
next
  case None
  show ?thesis
  proof (cases "map_of flight_durations (upper dst, upper src)")
    case (Some r)
    then have "((upper dst, upper src), fst r, snd r) \<in> set flight_durations"
      by (simp add: map_of_SomeD)
    then have "fst r \<le> snd r"
      by (rule flight_durations_ordered)
    with None Some show ?thesis
      by (simp add: duration_range_def)
  next
    case N2: None
    with None show ?thesis
      by (simp add: duration_range_def)
  qed
qed

lemma generate_flight_duration:
  assumes "generate_flight strptime_hm src dst date g = (Inr f, g')"
  obtains m where "duration_minutes f = Some (Fin m)"
    "fst (duration_range src dst) \<le> m" "m \<le> snd (duration_range src dst)"
proof -
  from assms obtain g3 p where
    "duration_minutes f =
       Some (Fin (fst (randint (fst (duration_range src dst))
                               (snd (duration_range src dst)) g3)))"
    by (rule generate_flight_fields)
  then show thesis
    using randint_bounds [OF duration_range_ordered, of src dst g3]
    by (intro that) simp_all
qed

text \<open>
  Claim C7. The duration of every generated flight is an integer in the range of its
  route: when the pair of the uppercased source and destination, or the reversed pair, is
  in the table of routes, in the range of that entry, which is 330 to 390 minutes for NYC
  and LAX in either direction; when neither is in the table, in the range 120 to 480.
\<close>

theorem generated_duration_in_range:
  assumes "generate_flight strptime_hm src dst date g = (Inr f, g')"
  shows "\<exists>m. duration_minutes f = Some (Fin m) \<and>
           (\<forall>lo hi. ((upper src, upper dst), lo, hi) \<in> set flight_durations \<or>
                    ((upper dst, upper src), lo, hi) \<in> set flight_durations \<longrightarrow>
                    lo \<le> m \<and> m \<le> hi) \<and>
           ((upper src = ''NYC'' \<and> upper dst = ''LAX'') \<or>
            (upper src = ''LAX'' \<and> upper dst = ''NYC'') \<longrightarrow> 330 \<le> m \<and> m \<le> 390) \<and>
           ((upper src, upper dst) \<notin> fst ` set flight_durations \<and>
            (upper dst, upper src) \<notin> fst ` set flight_durations \<longrightarrow>
            120 \<le> m \<and> m \<le> 480)"
proof -
  from assms obtain m where m: "duration_minutes f = Some (Fin m)"
    "fst (duration_range src dst) \<le> m" "m \<le> snd (duration_range src dst)"
    by (rule generate_flight_duration)
  have table: "lo \<le> m \<and> m \<le> hi"
    if "((upper src, upper dst), lo, hi) \<in> set flight_durations \<or>
        ((upper dst, upper src), lo, hi) \<in> set flight_durations" for lo hi
    using duration_range_table [OF that] m(2,3) by simp
  have nyc: "330 \<le> m \<and> m \<le> 390"
    if "(upper src = ''NYC'' \<and> upper dst = ''LAX'') \<or>
        (upper src = ''LAX'' \<and> upper dst = ''NYC'')"
  proof -
    have "((upper src, upper dst), 330, 390) \<in> set flight_durations \<or>
          ((upper dst, upper src), 330, 390) \<in> set flight_durations"
      using that by (auto simp: flight_durations_def)
    then show ?thesis by (rule table)
  qed
  have dflt: "120 \<le> m \<and> m \<le> 480"
    if "(upper src, upper dst) \<notin> fst ` set flight_durations \<and>
        (upper dst, upper src) \<notin> fst ` set flight_durations"
    using duration_range_default [of src dst] that m(2,3) by simp
  from m(1) table nyc dflt show ?thesis
    by blast
qed

subsection \<open>The demo scraper on the sample query\<close>

lemma randbelow_zero_rng: "randbelow n zero_rng = (0, zero_rng)"
  by (simp add: randbelow_def zero_rng_def)

lemma randint_zero_rng: "randint a b zero_rng = (a, zero_rng)"
  by (simp add: randint_def randbelow_zero_rng)

lemma choice_zero_rng: "choice xs zero_rng = (xs ! 0, zero_rng)"
  by (simp add: choice_def randbelow_zero_rng)

lemma choices_stops_zero_rng: "choices_stops zero_rng = (''Nonstop'', zero_rng)"
  by (simp add: choices_stops_def randbelow_zero_rng)

lemma upper_nyc: "upper ''nyc'' = ''NYC''" "upper ''LAX'' = ''LAX''"
  by (simp_all add: upper_def upper_char_def char_of_def bit_Suc_0_iff)

lemma duration_range_nyc: "duration_range ''nyc'' ''LAX'' = (330, 390)"
  by (simp add: duration_range_def upper_nyc flight_durations_def)

lemma pad2_values: "pad2 6 = ''06''" "pad2 0 = ''00''" "pad2 11 = ''11''" "pad2 30 = ''30''"
  by (simp_all add: pad2_def str_int_def str_nat.simps char_of_def bit_Suc_0_iff)

lemma str_int_values: "str_int 5 = ''5''" "str_int 30 = ''30''" "str_int 200 = ''200''"
  by (simp_all add: str_int_def str_nat.simps char_of_def bit_Suc_0_iff)

lemma sample_strptime_hm_six:
  "sample_strptime_hm ''2024-06-15 06:00'' = Some (739052, 360)"
  by (simp add: sample_strptime_hm_def nat_of_digits_def digit_val_def)

lemma generate_flight_zero_rng:
  "generate_flight sample_strptime_hm ''nyc'' ''LAX'' ''2024-06-15'' zero_rng =
     (Inr demo_flight_0, zero_rng)"
  by (simp add: generate_flight_def choice_zero_rng randint_zero_rng choices_stops_zero_rng
        airlines_def duration_range_nyc pad2_values sample_strptime_hm_six max_ordinal_def
        str_int_values upper_nyc demo_flight_0_def)

theorem generated_duration_in_range_witness:
  "generate_flight sample_strptime_hm ''nyc'' ''LAX'' ''2024-06-15'' zero_rng =
     (Inr demo_flight_0, zero_rng) \<and>
   upper ''nyc'' = ''NYC'' \<and> upper ''LAX'' = ''LAX'' \<and>
   (\<exists>m. duration_minutes demo_flight_0 = Some (Fin m) \<and> 330 \<le> m \<and> m \<le> 390)"
proof -
  from generated_duration_in_range [OF generate_flight_zero_rng]
  obtain m where "duration_minutes demo_flight_0 = Some (Fin m)"
    and "(upper ''nyc'' = ''NYC'' \<and> upper ''LAX'' = ''LAX'') \<or>
         (upper ''nyc'' = ''LAX'' \<and> upper ''LAX'' = ''NYC'') \<longrightarrow> 330 \<le> m \<and> m \<le> 390"
    by blast
  then have "\<exists>m. duration_minutes demo_flight_0 = Some (Fin m) \<and> 330 \<le> m \<and> m \<le> 390"
    using upper_nyc by blast
  with generate_flight_zero_rng upper_nyc show ?thesis
    by (intro conjI)
qed

subsection \<open>The loop and the sort of the demo scraper\<close>

lemma generate_flights_length:
  "generate_flights strptime_hm n src dst date g = (Inr fs, g') \<Longrightarrow>
   length fs = n \<and> list_all (\<lambda>x. price_numeric x \<noteq> None) fs"
proof (induction n arbitrary: g fs g')
  case 0
  then show ?case by simp
next
  case (Suc n)
  obtain r g1 where 1: "generate_flight strptime_hm src dst date g = (r, g1)"
    by (metis surj_pair)
  obtain rs g2 where 2: "generate_flights strptime_hm n src dst date g1 = (rs, g2)"
    by (metis surj_pair)
  from Suc.prems 1 2 obtain f fs' where f: "r = Inr f" "rs = Inr fs'" "fs = f # fs'"
    by (cases r; cases rs) auto
  from 1 f(1) obtain p where "price_numeric f = Some (Fin p)"
    by (auto elim: generate_flight_fields)
  moreover from Suc.IH [of g1 fs' g2] 2 f(2)
  have "length fs' = n \<and> list_all (\<lambda>x. price_numeric x \<noteq> None) fs'"
    by simp
  ultimately show ?case
    using f(3) by simp
qed

lemma sort_by_price_sorted:
  assumes "sort_by_price fs = Inr ys"
  shows "length ys = length fs" and "sorted (map price_key ys)"
    and "list_all (\<lambda>x. price_numeric x \<noteq> None) ys"
proof -
  from assms have all: "list_all (\<lambda>x. price_numeric x \<noteq> None) fs"
    and ys: "ys = sort_key (\<lambda>x. the (price_numeric x)) fs"
    by (auto simp: sort_by_price_def split: if_splits)
  show "length ys = length fs"
    by (simp add: ys)
  have set: "set ys = set fs"
    by (simp add: ys)
  with all show ys_all: "list_all (\<lambda>x. price_numeric x \<noteq> None) ys"
    by (simp add: list_all_iff)
  have eq: "map price_key ys = map (\<lambda>x. the (price_numeric x)) ys"
    using ys_all by (auto simp: list_all_iff price_key_def)
  have "sorted (map (\<lambda>x. the (price_numeric x)) ys)"
    by (simp add: ys)
  then show "sorted (map price_key ys)"
    unfolding eq .
qed

text \<open>
  Claim C6. For every query and every configuration whose \<open>max_results\<close> is not negative,
  a list that \<open>DemoFlightScraper.search_flights\<close> returns has at most
  \<open>min(max_results, 8)\<close> records, in fact exactly that many, every record carries a
  numeric price, and the list is sorted ascending by \<open>price_numeric\<close>.
\<close>

theorem demo_search_flights_count_sorted:
  assumes "demo_search_flights strptime_hm cfg src dst date ret pass cls g = (Inr flights, g')"
    and "search_settings cfg = Some (Val ss)" and "max_results ss = Some (Val m)"
    and "0 \<le> m"
  shows "int (length flights) \<le> min m 8 \<and> length flights = nat (min m 8) \<and>
         sorted (map price_key flights) \<and>
         list_all (\<lambda>x. price_numeric x \<noteq> None) flights"
proof -
  obtain r g1 where 1:
    "generate_flights strptime_hm (nat (min m 8)) src dst date g = (r, g1)"
    by (metis surj_pair)
  from assms(1-3) 1 obtain fs where fs: "r = Inr fs" "sort_by_price fs = Inr flights"
    by (cases r) (auto simp: demo_search_flights_def subscript_def container_def Let_def)
  from 1 fs(1) have "length fs = nat (min m 8)"
    using generate_flights_length by blast
  with sort_by_price_sorted [OF fs(2)] assms(4) show ?thesis
    by simp
qed

text \<open>
  Claim C10. \<open>DemoFlightScraper.search_flights\<close> does not read its \<open>return_date\<close>,
  \<open>passengers\<close> and \<open>flight_class\<close> arguments: two calls with the same state of the
  random generator, the same configuration, source, destination and travel date give the
  same result and leave the generator in the same state, whatever these three arguments
  are in each call.
\<close>

theorem demo_ignores_unused_arguments:
  "demo_search_flights strptime_hm cfg src dst date ret1 pass1 cls1 g =
   demo_search_flights strptime_hm cfg src dst date ret2 pass2 cls2 g"
  by (simp add: demo_search_flights_def)

lemma generate_flights_zero_rng:
  "generate_flights sample_strptime_hm 2 ''nyc'' ''LAX'' ''2024-06-15'' zero_rng =
     (Inr [demo_flight_0, demo_flight_0], zero_rng)"
  by (simp add: numeral_2_eq_2 generate_flight_zero_rng)

lemma sort_by_price_demo_flights:
  "sort_by_price [demo_flight_0, demo_flight_0] = Inr [demo_flight_0, demo_flight_0]"
  by (simp add: sort_by_price_def demo_flight_0_def)

lemma demo_search_sample:
  "demo_search_flights sample_strptime_hm sample_config ''nyc'' ''LAX'' ''2024-06-15'' None 1
     ''economy'' zero_rng = (Inr [demo_flight_0, demo_flight_0], zero_rng)"
  by (simp add: demo_search_flights_def subscript_def container_def sample_config_def
        sample_settings_def generate_flights_zero_rng sort_by_price_demo_flights)

theorem demo_search_flights_count_sorted_witness:
  "demo_search_flights sample_strptime_hm sample_config ''nyc'' ''LAX'' ''2024-06-15'' None 1
     ''economy'' zero_rng = (Inr [demo_flight_0, demo_flight_0], zero_rng) \<and>
   search_settings sample_config = Some (Val sample_settings) \<and>
   max_results sample_settings = Some (Val 2) \<and> (0 :: int) \<le> 2 \<and>
   int (length [demo_flight_0, demo_flight_0]) \<le> min 2 8 \<and>
   sorted (map price_key [demo_flight_0, demo_flight_0])"
proof -
  have s: "search_settings sample_config = Some (Val sample_settings)"
    by (simp add: sample_config_def)
  have m: "max_results sample_settings = Some (Val 2)"
    by (simp add: sample_settings_def)
  have z: "(0 :: int) \<le> 2"
    by simp
  note t = demo_search_flights_count_sorted [OF demo_search_sample s m z]
  from demo_search_sample s m z t [THEN conjunct1] t [THEN conjunct2, THEN conjunct2, THEN conjunct1]
  show ?thesis
    by (intro conjI)
qed

text \<open>
  With \<open>max_results = -1\<close> the loop over \<open>range(-1)\<close> does not run: the scraper returns
  the empty list, whose length 0 is above \<open>min(-1, 8) = -1\<close>.
\<close>

theorem negative_max_results_bound_fails:
  "demo_search_flights sample_strptime_hm negative_cap_config ''nyc'' ''LAX'' ''2024-06-15''
     None 1 ''economy'' zero_rng = (Inr [], zero_rng) \<and>
   search_settings negative_cap_config =
     Some (Val (sample_settings\<lparr>max_results := Some (Val (- 1))\<rparr>)) \<and>
   \<not> int (length ([] :: flight list)) \<le> min (- 1) 8"
  by (simp add: demo_search_flights_def subscript_def container_def negative_cap_config_def
        with_settings_def sample_config_def sample_settings_def sort_by_price_def)

end
